theory Spec2Isabelle
  imports Complex_Main
begin

section \<open>JavaScript values\<close>

text \<open>
  The validators take \<^verbatim>\<open>value: any\<close>.  The values a form record holds are strings,
  numbers, booleans, \<^verbatim>\<open>undefined\<close> and \<^verbatim>\<open>null\<close>; objects and arrays never
  occur as field values and are left out.  A number is an exact rational or one of
  \<^verbatim>\<open>NaN\<close>, \<^verbatim>\<open>Infinity\<close>, \<^verbatim>\<open>-Infinity\<close>; the rounding of IEEE doubles is
  not modelled.  A string is a list of 8-bit code units (Latin-1 text).
\<close>

datatype jsnum = NaN | NegInf | Fin rat | PosInf

datatype jsval = JUndefined | JNull | JBool bool | JNum jsnum | JStr string

text \<open>\<^verbatim>\<open>a < b\<close> on numbers: false as soon as one side is \<^verbatim>\<open>NaN\<close>.\<close>

fun num_lt :: "jsnum \<Rightarrow> jsnum \<Rightarrow> bool" where
  "num_lt NaN _ = False"
| "num_lt _ NaN = False"
| "num_lt NegInf NegInf = False"
| "num_lt NegInf _ = True"
| "num_lt _ NegInf = False"
| "num_lt PosInf _ = False"
| "num_lt _ PosInf = True"
| "num_lt (Fin a) (Fin b) = (a < b)"

text \<open>\<^verbatim>\<open>a > b\<close> is \<^verbatim>\<open>b < a\<close> with the operands swapped.\<close>

definition num_gt :: "jsnum \<Rightarrow> jsnum \<Rightarrow> bool" where
  "num_gt a b = num_lt b a"

fun num_neg :: "jsnum \<Rightarrow> jsnum" where
  "num_neg NaN = NaN"
| "num_neg NegInf = PosInf"
| "num_neg PosInf = NegInf"
| "num_neg (Fin a) = Fin (- a)"

text \<open>Truthiness (\<^verbatim>\<open>ToBoolean\<close>), as used by \<^verbatim>\<open>!x\<close>, \<^verbatim>\<open>x || d\<close> and \<^verbatim>\<open>if (x)\<close>.\<close>

fun num_truthy :: "jsnum \<Rightarrow> bool" where
  "num_truthy NaN = False"
| "num_truthy (Fin a) = (a \<noteq> 0)"
| "num_truthy _ = True"

fun truthy :: "jsval \<Rightarrow> bool" where
  "truthy JUndefined = False"
| "truthy JNull = False"
| "truthy (JBool b) = b"
| "truthy (JNum n) = num_truthy n"
| "truthy (JStr s) = (s \<noteq> [])"

text \<open>\<^verbatim>\<open>a === b\<close>: same type and same value, and \<^verbatim>\<open>NaN\<close> equals nothing.\<close>

fun strict_eq :: "jsval \<Rightarrow> jsval \<Rightarrow> bool" where
  "strict_eq (JNum a) (JNum b) = (a \<noteq> NaN \<and> a = b)"
| "strict_eq a b = (a = b)"

text \<open>
  \<^verbatim>\<open>xs.includes(v)\<close> compares with SameValueZero, under which \<^verbatim>\<open>NaN\<close> equals
  itself: on this value type it is plain equality.
\<close>

definition array_includes :: "jsval list \<Rightarrow> jsval \<Rightarrow> bool" where
  "array_includes xs v = (v \<in> set xs)"

subsection \<open>\<^verbatim>\<open>Number(value)\<close>\<close>

definition is_ws :: "char \<Rightarrow> bool" where
  "is_ws c = (c \<in> set [CHR 0x09, CHR 0x0A, CHR 0x0B, CHR 0x0C, CHR 0x0D, CHR 0x20, CHR 0xA0])"

definition is_digit :: "char \<Rightarrow> bool" where
  "is_digit c = (c \<in> set ''0123456789'')"

fun digit_of :: "string \<Rightarrow> char \<Rightarrow> nat" where
  "digit_of [] c = 0"
| "digit_of (d # ds) c = (if c = d then 0 else Suc (digit_of ds c))"

text \<open>The value of a digit string in the radix given by its digit alphabet.\<close>

definition digits_val :: "string \<Rightarrow> string \<Rightarrow> nat" where
  "digits_val alphabet ds = foldl (\<lambda>a c. length alphabet * a + digit_of alphabet c) 0 ds"

definition to_lower_hex :: "char \<Rightarrow> char" where
  "to_lower_hex c =
     (if c = CHR ''A'' then CHR ''a'' else if c = CHR ''B'' then CHR ''b''
      else if c = CHR ''C'' then CHR ''c'' else if c = CHR ''D'' then CHR ''d''
      else if c = CHR ''E'' then CHR ''e'' else if c = CHR ''F'' then CHR ''f'' else c)"

definition radix_literal :: "string \<Rightarrow> string \<Rightarrow> jsnum" where
  "radix_literal alphabet ds =
     (if ds \<noteq> [] \<and> (\<forall>c \<in> set ds. to_lower_hex c \<in> set alphabet)
      then Fin (of_nat (digits_val alphabet (map to_lower_hex ds))) else NaN)"

text \<open>The exponent part of a decimal literal: nothing, or \<^verbatim>\<open>e\<close>, a sign and digits.\<close>

fun exponent_part :: "string \<Rightarrow> int option" where
  "exponent_part [] = Some 0"
| "exponent_part (e # r) =
     (if e = CHR ''e'' \<or> e = CHR ''E'' then
        (case r of
           [] \<Rightarrow> None
         | s # t \<Rightarrow>
             (if s = CHR ''-'' then
                (if t \<noteq> [] \<and> list_all is_digit t then Some (- int (digits_val ''0123456789'' t)) else None)
              else if s = CHR ''+'' then
                (if t \<noteq> [] \<and> list_all is_digit t then Some (int (digits_val ''0123456789'' t)) else None)
              else
                (if list_all is_digit r then Some (int (digits_val ''0123456789'' r)) else None)))
      else None)"

definition scale10 :: "nat \<Rightarrow> int \<Rightarrow> rat" where
  "scale10 m e = (if 0 \<le> e then of_nat m * 10 ^ nat e else of_nat m / 10 ^ nat (- e))"

text \<open>An unsigned decimal literal: \<^verbatim>\<open>Infinity\<close>, \<^verbatim>\<open>12\<close>, \<^verbatim>\<open>12.\<close>, \<^verbatim>\<open>12.5\<close>, \<^verbatim>\<open>.5\<close>, each with an optional exponent.\<close>

definition unsigned_decimal :: "string \<Rightarrow> jsnum" where
  "unsigned_decimal s =
     (if s = ''Infinity'' then PosInf
      else
        (let ip = takeWhile is_digit s;
             r1 = dropWhile is_digit s;
             fp = (case r1 of [] \<Rightarrow> [] | c # t \<Rightarrow> if c = CHR ''.'' then takeWhile is_digit t else []);
             r2 = (case r1 of [] \<Rightarrow> [] | c # t \<Rightarrow> if c = CHR ''.'' then dropWhile is_digit t else r1)
         in if ip = [] \<and> fp = [] then NaN
            else (case exponent_part r2 of
                    None \<Rightarrow> NaN
                  | Some e \<Rightarrow> Fin (scale10 (digits_val ''0123456789'' (ip @ fp)) (e - int (length fp))))))"

definition trim :: "string \<Rightarrow> string" where
  "trim s = rev (dropWhile is_ws (rev (dropWhile is_ws s)))"

text \<open>\<^verbatim>\<open>StringToNumber\<close>: white space is trimmed, the empty string is 0, a string that is no numeric literal is \<^verbatim>\<open>NaN\<close>.\<close>

definition string_to_number :: "string \<Rightarrow> jsnum" where
  "string_to_number s =
     (case trim s of
        [] \<Rightarrow> Fin 0
      | c # t \<Rightarrow>
          (if c = CHR ''+'' then unsigned_decimal t
           else if c = CHR ''-'' then num_neg (unsigned_decimal t)
           else if c = CHR ''0'' \<and> t \<noteq> [] \<and> hd t \<in> set ''xX'' then radix_literal ''0123456789abcdef'' (tl t)
           else if c = CHR ''0'' \<and> t \<noteq> [] \<and> hd t \<in> set ''oO'' then radix_literal ''01234567'' (tl t)
           else if c = CHR ''0'' \<and> t \<noteq> [] \<and> hd t \<in> set ''bB'' then radix_literal ''01'' (tl t)
           else unsigned_decimal (c # t)))"

fun to_number :: "jsval \<Rightarrow> jsnum" where
  "to_number JUndefined = NaN"
| "to_number JNull = Fin 0"
| "to_number (JBool b) = (if b then Fin 1 else Fin 0)"
| "to_number (JNum n) = n"
| "to_number (JStr s) = string_to_number s"

text \<open>\<^verbatim>\<open>x || d\<close> on an optional number, and on a value.\<close>

definition num_or :: "jsnum option \<Rightarrow> jsnum \<Rightarrow> jsnum" where
  "num_or x d = (case x of None \<Rightarrow> d | Some n \<Rightarrow> if num_truthy n then n else d)"

definition val_or :: "jsval \<Rightarrow> jsval \<Rightarrow> jsval" where
  "val_or x d = (if truthy x then x else d)"

subsection \<open>Regular expressions\<close>

text \<open>
  A pattern of the fragment used here is a sequence of character classes, each repeated
  between a lower and an optional upper bound, anchored or not at either end.
  \<^verbatim>\<open>re.test(s)\<close> asks whether some substring matches (the whole string when anchored).
\<close>

type_synonym item = "(char \<Rightarrow> bool) \<times> nat \<times> nat option"

record regex =
  from_start :: bool
  body :: "item list"
  to_end :: bool

fun match_items :: "item list \<Rightarrow> string \<Rightarrow> bool" where
  "match_items [] s = (s = [])"
| "match_items ((p, lo, hi) # its) s =
     ((lo = 0 \<and> match_items its s) \<or>
      (case s of
         [] \<Rightarrow> False
       | c # t \<Rightarrow> p c \<and> hi \<noteq> Some 0 \<and> match_items ((p, lo - 1, map_option (\<lambda>h. h - 1) hi) # its) t))"

definition any_run :: item where
  "any_run = (\<lambda>_. True, 0, None)"

definition regex_test :: "regex \<Rightarrow> string \<Rightarrow> bool" where
  "regex_test r s =
     match_items ((if from_start r then [] else [any_run]) @ body r @ (if to_end r then [] else [any_run])) s"

text \<open>The literal \<^verbatim>\<open>/^[^\s@]+@[^\s@]+\.[^\s@]+$/\<close> of the \<^verbatim>\<open>emailFormat\<close> case.\<close>

definition not_space_at :: "char \<Rightarrow> bool" where
  "not_space_at c = (\<not> is_ws c \<and> c \<noteq> CHR ''@'')"

definition email_regex :: regex where
  "email_regex = \<lparr> from_start = True,
       body = [(not_space_at, 1, None), ((=) CHR ''@'', 1, Some 1), (not_space_at, 1, None),
               ((=) CHR ''.'', 1, Some 1), (not_space_at, 1, None)],
       to_end = True \<rparr>"

text \<open>The literal \<^verbatim>\<open>/[0-9]/\<close> of the \<^verbatim>\<open>noNumbers\<close> case.\<close>

definition digit_regex :: regex where
  "digit_regex = \<lparr> from_start = False, body = [(is_digit, 1, Some 1)], to_end = False \<rparr>"

text \<open>
  \<^verbatim>\<open>new RegExp(pattern)\<close> for pattern texts of the fragment: an optional \<^verbatim>\<open>^\<close>, then
  atoms (a character, an escape, a class in brackets, a dot), each with an optional
  quantifier \<^verbatim>\<open>*\<close>, \<^verbatim>\<open>+\<close>, \<^verbatim>\<open>?\<close>, \<^verbatim>\<open>{n}\<close>, \<^verbatim>\<open>{n,}\<close>, \<^verbatim>\<open>{n,m}\<close>, then an optional \<^verbatim>\<open>$\<close>.
  The result is \<open>None\<close> where the constructor throws a SyntaxError; this reference
  compiler also answers \<open>None\<close> on pattern texts outside the fragment (groups,
  alternatives, look-around).  The validators below take the compiler as a parameter.
\<close>

definition is_word :: "char \<Rightarrow> bool" where
  "is_word c = (c \<in> set ''abcdefghijklmnopqrstuvwxyzABCDEFGHIJKLMNOPQRSTUVWXYZ0123456789_'')"

definition escape_class :: "char \<Rightarrow> (char \<Rightarrow> bool) option" where
  "escape_class c =
     (if c = CHR ''d'' then Some is_digit
      else if c = CHR ''D'' then Some (\<lambda>x. \<not> is_digit x)
      else if c = CHR ''w'' then Some is_word
      else if c = CHR ''W'' then Some (\<lambda>x. \<not> is_word x)
      else if c = CHR ''s'' then Some is_ws
      else if c = CHR ''S'' then Some (\<lambda>x. \<not> is_ws x)
      else if c = CHR ''t'' then Some ((=) (CHR 0x09))
      else if c = CHR ''n'' then Some ((=) (CHR 0x0A))
      else if c = CHR ''v'' then Some ((=) (CHR 0x0B))
      else if c = CHR ''f'' then Some ((=) (CHR 0x0C))
      else if c = CHR ''r'' then Some ((=) (CHR 0x0D))
      else if c \<in> set [CHR ''^'', CHR ''$'', CHR 0x5C, CHR ''.'', CHR ''*'', CHR ''+'', CHR ''?'',
                        CHR ''('', CHR '')'', CHR ''['', CHR '']'', CHR ''{'', CHR ''}'', CHR ''|'',
                        CHR ''/'', CHR ''-''] then Some ((=) c)
      else None)"

text \<open>The members of a bracketed class, up to and including the closing bracket.\<close>

fun class_members :: "string \<Rightarrow> ((char \<Rightarrow> bool) \<times> string) option" where
  "class_members [] = None"
| "class_members (a # r) =
     (if a = CHR '']'' then Some (\<lambda>_. False, r)
      else if a = CHR 0x5C then
        (case r of
           [] \<Rightarrow> None
         | c # r' \<Rightarrow>
             (case escape_class c of
                None \<Rightarrow> None
              | Some p \<Rightarrow> map_option (\<lambda>(q, rest). (\<lambda>x. p x \<or> q x, rest)) (class_members r')))
      else
        (case r of
           d # b # r' \<Rightarrow>
             (if d = CHR ''-'' \<and> b \<noteq> CHR '']'' then
                (if b = CHR 0x5C \<or> (of_char b :: nat) < of_char a then None
                 else map_option
                        (\<lambda>(q, rest). (\<lambda>x. ((of_char a :: nat) \<le> of_char x \<and> (of_char x :: nat) \<le> of_char b) \<or> q x, rest))
                        (class_members r'))
              else map_option (\<lambda>(q, rest). (\<lambda>x. x = a \<or> q x, rest)) (class_members r))
         | _ \<Rightarrow> map_option (\<lambda>(q, rest). (\<lambda>x. x = a \<or> q x, rest)) (class_members r)))"

definition atom :: "string \<Rightarrow> ((char \<Rightarrow> bool) \<times> string) option" where
  "atom s =
     (case s of
        [] \<Rightarrow> None
      | a # r \<Rightarrow>
          (if a = CHR 0x5C then
             (case r of [] \<Rightarrow> None | c # r' \<Rightarrow> map_option (\<lambda>p. (p, r')) (escape_class c))
           else if a = CHR ''['' then
             (case r of
                [] \<Rightarrow> None
              | c # r' \<Rightarrow>
                  (if c = CHR ''^'' then map_option (\<lambda>(q, rest). (\<lambda>x. \<not> q x, rest)) (class_members r')
                   else class_members r))
           else if a = CHR ''.'' then Some (\<lambda>x. x \<noteq> CHR 0x0A \<and> x \<noteq> CHR 0x0D, r)
           else if a \<in> set [CHR ''^'', CHR ''$'', CHR ''*'', CHR ''+'', CHR ''?'', CHR ''('', CHR '')'',
                             CHR '']'', CHR ''{'', CHR ''}'', CHR ''|''] then None
           else Some ((=) a, r)))"

definition braces :: "string \<Rightarrow> (nat \<times> nat option \<times> string) option" where
  "braces s =
     (let ds = takeWhile is_digit s; r = dropWhile is_digit s; n = digits_val ''0123456789'' ds
      in if ds = [] then None
         else (case r of
                 [] \<Rightarrow> None
               | c # r' \<Rightarrow>
                   (if c = CHR ''}'' then Some (n, Some n, r')
                    else if c = CHR '','' then
                      (let es = takeWhile is_digit r'; r2 = dropWhile is_digit r';
                           m = digits_val ''0123456789'' es
                       in (case r2 of
                             [] \<Rightarrow> None
                           | c2 # r3 \<Rightarrow>
                               (if c2 \<noteq> CHR ''}'' then None
                                else if es = [] then Some (n, None, r3)
                                else if m < n then None
                                else Some (n, Some m, r3))))
                    else None)))"

definition quantifier :: "string \<Rightarrow> (nat \<times> nat option \<times> string) option" where
  "quantifier s =
     (case s of
        [] \<Rightarrow> Some (1, Some 1, [])
      | c # r \<Rightarrow>
          (if c = CHR ''*'' then Some (0, None, r)
           else if c = CHR ''+'' then Some (1, None, r)
           else if c = CHR ''?'' then Some (0, Some 1, r)
           else if c = CHR ''{'' then braces r
           else Some (1, Some 1, s)))"

text \<open>The atoms of a pattern; \<open>n\<close> bounds the number of atoms by the length of the text.\<close>

fun parse_items :: "nat \<Rightarrow> string \<Rightarrow> (item list \<times> bool) option" where
  "parse_items n [] = Some ([], False)"
| "parse_items 0 (c # r) = None"
| "parse_items (Suc n) (c # r) =
     (if c = CHR ''$'' \<and> r = [] then Some ([], True)
      else
        (case atom (c # r) of
           None \<Rightarrow> None
         | Some (p, r1) \<Rightarrow>
             (case quantifier r1 of
                None \<Rightarrow> None
              | Some (lo, hi, r2) \<Rightarrow>
                  (if r2 \<noteq> [] \<and> hd r2 \<in> set [CHR ''*'', CHR ''+'', CHR ''?'', CHR ''{''] then None
                   else map_option (\<lambda>(its, e). ((p, lo, hi) # its, e)) (parse_items n r2)))))"

definition compile_regex :: "string \<Rightarrow> regex option" where
  "compile_regex p =
     (let anchored = (p \<noteq> [] \<and> hd p = CHR ''^''); rest = (if anchored then tl p else p)
      in map_option (\<lambda>(its, e). \<lparr> from_start = anchored, body = its, to_end = e \<rparr>)
           (parse_items (length rest) rest))"

definition RegExp_test :: "string \<Rightarrow> (string \<Rightarrow> bool) option" where
  "RegExp_test p = map_option regex_test (compile_regex p)"

section \<open>The rule schema (\<^verbatim>\<open>config/rules.ts\<close>)\<close>

datatype rule_type =
    R_required | R_minLength | R_noNumbers | R_emailFormat | R_unique | R_pattern
  | R_ageRange | R_range | R_minValue | R_notEquals | R_exactLength | R_conditional

text \<open>
  An optional property that is absent is \<open>None\<close>; for the properties of type
  \<^verbatim>\<open>any\<close> (\<^verbatim>\<open>value\<close>, \<^verbatim>\<open>is\<close>) it is \<open>JUndefined\<close>.
\<close>

record condition =
  when_c :: string
  is_c :: jsval
  in_c :: "jsval list option"
  requires_c :: "string option"
  min_c :: "jsnum option"
  max_c :: "jsnum option"
  message_c :: "string option"

record ValidationRule =
  rtype :: rule_type
  message :: "string option"
  rvalue :: jsval
  pattern :: "string option"
  rmin :: "jsnum option"
  rmax :: "jsnum option"
  checkStorage :: "bool option"
  blockSubmission :: "bool option"
  bannerMessage :: "string option"
  conditions :: "condition list option"

datatype input_type = T_text | T_email | T_tel | T_date | T_select | T_number | T_toggle

datatype category = Strict | Soft

record FieldConfig =
  fid :: string
  label :: string
  ftype :: input_type
  category :: category
  options :: "string list option"
  subType :: "input_type option"
  validations :: "ValidationRule list"
  allowException :: bool
  rationaleKeywords :: "string list option"
  rationaleMinLength :: "jsnum option"

record SystemRules =
  maxExceptions :: jsnum
  flagMessage :: string

record RulesConfig =
  schema_fields :: "FieldConfig list"
  systemRules :: SystemRules

section \<open>The rule evaluator (\<^verbatim>\<open>lib/validation.ts\<close>)\<close>

record ValidationResult =
  valid :: bool
  error :: jsval
  isSoft :: bool
  res_blockSubmission :: "bool option"

text \<open>A record \<^verbatim>\<open>Record<string, any>\<close>; reading a key that is not there gives \<^verbatim>\<open>undefined\<close>.\<close>

type_synonym formdata = "string \<rightharpoonup> jsval"

definition lookup :: "formdata \<Rightarrow> string \<Rightarrow> jsval" where
  "lookup m k = (case m k of None \<Rightarrow> JUndefined | Some v \<Rightarrow> v)"

record Exception =
  active :: bool
  rationale :: string

text \<open>
  An element of the history.  \<^verbatim>\<open>validateField\<close> takes \<^verbatim>\<open>auditLog: any[]\<close>, so an
  element need not be an \<^verbatim>\<open>AuditEntry\<close>: \<open>entry_formData\<close> is \<open>None\<close> for an element
  on which \<^verbatim>\<open>entry.formData\<close> is not an object (the element is \<^verbatim>\<open>null\<close>, or it has no
  \<^verbatim>\<open>formData\<close>), where \<^verbatim>\<open>entry.formData[field.id]\<close> throws a TypeError.
\<close>

record AuditEntry =
  entry_id :: string
  timestamp :: string
  entry_formData :: "formdata option"
  entry_exceptions :: "(string \<times> Exception) list"
  exceptionCount :: nat
  entry_isFlagged :: bool

text \<open>
  What the evaluator takes from its host: the \<^verbatim>\<open>RegExp\<close> constructor followed by
  \<^verbatim>\<open>test\<close> (\<open>None\<close> when the constructor throws), and
  \<^verbatim>\<open>differenceInYears(new Date(), new Date(value))\<close>, which reads the clock.
\<close>

record platform =
  new_RegExp :: "string \<Rightarrow> (string \<Rightarrow> bool) option"
  age_in_years :: "jsval \<Rightarrow> jsnum"

datatype error = SyntaxError | TypeError

definition msg :: "string option \<Rightarrow> jsval" where
  "msg m = (case m of None \<Rightarrow> JUndefined | Some s \<Rightarrow> JStr s)"

text \<open>\<^verbatim>\<open>cond.message || rule.message\<close>\<close>

definition msg_or :: "string option \<Rightarrow> string option \<Rightarrow> jsval" where
  "msg_or c r = (case c of None \<Rightarrow> msg r | Some s \<Rightarrow> if s \<noteq> [] then JStr s else msg r)"

definition failure :: "FieldConfig \<Rightarrow> jsval \<Rightarrow> ValidationResult" where
  "failure field m =
     \<lparr> valid = False, error = m, isSoft = (category field = Soft), res_blockSubmission = None \<rparr>"

definition str_length :: "string \<Rightarrow> jsnum" where
  "str_length s = Fin (of_nat (length s))"

text \<open>One sub-condition of a \<^verbatim>\<open>conditional\<close> rule: does it apply, and does it then fail.\<close>

definition cond_applies :: "condition \<Rightarrow> formdata \<Rightarrow> bool" where
  "cond_applies c allData =
     (let whenValue = lookup allData (when_c c)
      in (is_c c \<noteq> JUndefined \<and> strict_eq whenValue (is_c c)) \<or>
         (case in_c c of None \<Rightarrow> False | Some xs \<Rightarrow> array_includes xs whenValue))"

definition requires_fails :: "condition \<Rightarrow> formdata \<Rightarrow> bool" where
  "requires_fails c allData =
     (case requires_c c of
        None \<Rightarrow> False
      | Some r \<Rightarrow>
          r \<noteq> [] \<and> (case in_c c of None \<Rightarrow> False | Some xs \<Rightarrow> \<not> array_includes xs (lookup allData r)))"

definition bounds_fail :: "condition \<Rightarrow> jsval \<Rightarrow> bool" where
  "bounds_fail c v =
     ((case min_c c of None \<Rightarrow> False | Some m \<Rightarrow> num_lt (to_number v) m) \<or>
      (case max_c c of None \<Rightarrow> False | Some m \<Rightarrow> num_gt (to_number v) m))"

definition cond_fails :: "condition \<Rightarrow> jsval \<Rightarrow> formdata \<Rightarrow> bool" where
  "cond_fails c v allData = (cond_applies c allData \<and> (requires_fails c allData \<or> bounds_fail c v))"

fun first_failing :: "condition list \<Rightarrow> jsval \<Rightarrow> formdata \<Rightarrow> condition option" where
  "first_failing [] v allData = None"
| "first_failing (c # cs) v allData =
     (if cond_fails c v allData then Some c else first_failing cs v allData)"

text \<open>
  \<^verbatim>\<open>auditLog.some(entry => entry.formData[field.id] === value)\<close>: the entries are
  visited in order up to the first that answers true; an entry without \<^verbatim>\<open>formData\<close>
  that is reached throws.
\<close>

fun history_some :: "AuditEntry list \<Rightarrow> string \<Rightarrow> jsval \<Rightarrow> error + bool" where
  "history_some [] k v = Inr False"
| "history_some (entry # entries) k v =
     (case entry_formData entry of
        None \<Rightarrow> Inl TypeError
      | Some fd \<Rightarrow> if strict_eq (lookup fd k) v then Inr True else history_some entries k v)"

text \<open>
  One case of the \<^verbatim>\<open>switch\<close>: \<open>Inr None\<close> is \<^verbatim>\<open>break\<close> (the rule passes),
  \<open>Inr (Some r)\<close> is \<^verbatim>\<open>return r\<close>, \<open>Inl e\<close> is an exception.
\<close>

definition check_rule ::
  "platform \<Rightarrow> FieldConfig \<Rightarrow> ValidationRule \<Rightarrow> jsval \<Rightarrow> formdata \<Rightarrow> AuditEntry list
     \<Rightarrow> error + ValidationResult option" where
  "check_rule plat field rule v allData auditLog =
     (let bad = Inr (Some (failure field (msg (message rule)))); ok = Inr None in
      case rtype rule of
        R_required \<Rightarrow>
          (if v = JUndefined \<or> v = JNull \<or> v = JStr [] \<or> v = JBool False then bad else ok)
      | R_minLength \<Rightarrow>
          (case v of
             JStr s \<Rightarrow>
               if num_lt (str_length s) (to_number (val_or (rvalue rule) (JNum (Fin 0)))) then bad else ok
           | _ \<Rightarrow> ok)
      | R_noNumbers \<Rightarrow>
          (case v of JStr s \<Rightarrow> if regex_test digit_regex s then bad else ok | _ \<Rightarrow> ok)
      | R_emailFormat \<Rightarrow>
          (case v of JStr s \<Rightarrow> if \<not> regex_test email_regex s then bad else ok | _ \<Rightarrow> ok)
      | R_unique \<Rightarrow>
          (case v of
             JStr s \<Rightarrow>
               if checkStorage rule = Some True then
                 (case history_some auditLog (fid field) v of
                    Inl e \<Rightarrow> Inl e
                  | Inr exists \<Rightarrow> if exists then bad else ok)
               else ok
           | _ \<Rightarrow> ok)
      | R_pattern \<Rightarrow>
          (case v of
             JStr s \<Rightarrow>
               (case pattern rule of
                  None \<Rightarrow> ok
                | Some p \<Rightarrow>
                    if p = [] then ok
                    else (case new_RegExp plat p of
                            None \<Rightarrow> Inl SyntaxError
                          | Some test \<Rightarrow> if \<not> test s then bad else ok))
           | _ \<Rightarrow> ok)
      | R_ageRange \<Rightarrow>
          (if truthy v then
             (let age = age_in_years plat v
              in if num_lt age (num_or (rmin rule) (Fin 0)) \<or> num_gt age (num_or (rmax rule) (Fin 999))
                 then bad else ok)
           else ok)
      | R_range \<Rightarrow>
          (let numValue = to_number v
           in if num_lt numValue (num_or (rmin rule) NegInf) \<or> num_gt numValue (num_or (rmax rule) PosInf)
              then bad else ok)
      | R_minValue \<Rightarrow>
          (if num_lt (to_number v) (to_number (val_or (rvalue rule) (JNum (Fin 0)))) then bad else ok)
      | R_notEquals \<Rightarrow>
          (if strict_eq v (rvalue rule)
           then Inr (Some ((failure field (msg (message rule)))\<lparr> res_blockSubmission := blockSubmission rule \<rparr>))
           else ok)
      | R_exactLength \<Rightarrow>
          (case v of
             JStr s \<Rightarrow> if \<not> strict_eq (JNum (str_length s)) (rvalue rule) then bad else ok
           | _ \<Rightarrow> ok)
      | R_conditional \<Rightarrow>
          (case conditions rule of
             None \<Rightarrow> ok
           | Some cs \<Rightarrow>
               (case first_failing cs v allData of
                  None \<Rightarrow> ok
                | Some c \<Rightarrow> Inr (Some (failure field (msg_or (message_c c) (message rule)))))))"

text \<open>The \<^verbatim>\<open>for\<close> loop over \<^verbatim>\<open>field.validations\<close> and the final \<^verbatim>\<open>return\<close>.\<close>

fun apply_rules ::
  "platform \<Rightarrow> FieldConfig \<Rightarrow> ValidationRule list \<Rightarrow> jsval \<Rightarrow> formdata \<Rightarrow> AuditEntry list
     \<Rightarrow> error + ValidationResult" where
  "apply_rules plat field [] v allData auditLog =
     Inr \<lparr> valid = True, error = JNull, isSoft = (category field = Soft), res_blockSubmission = None \<rparr>"
| "apply_rules plat field (rule # rules) v allData auditLog =
     (case check_rule plat field rule v allData auditLog of
        Inl e \<Rightarrow> Inl e
      | Inr (Some r) \<Rightarrow> Inr r
      | Inr None \<Rightarrow> apply_rules plat field rules v allData auditLog)"

definition validateField ::
  "platform \<Rightarrow> FieldConfig \<Rightarrow> jsval \<Rightarrow> formdata \<Rightarrow> AuditEntry list \<Rightarrow> error + ValidationResult" where
  "validateField plat field v allData auditLog =
     apply_rules plat field (validations field) v allData auditLog"

subsection \<open>The exception gate\<close>

text \<open>
  The two error texts are templates around a number and around the keyword list; the
  model keeps what is interpolated.
\<close>

datatype rationale_error = TooShort jsnum | NoKeyword "string list"

record RationaleResult =
  rat_valid :: bool
  rat_error :: "rationale_error option"

definition toLowerCase_char :: "char \<Rightarrow> char" where
  "toLowerCase_char c =
     (let n = (of_char c :: nat)
      in if (65 \<le> n \<and> n \<le> 90) \<or> (192 \<le> n \<and> n \<le> 222 \<and> n \<noteq> 215) then char_of (n + 32) else c)"

definition toLowerCase :: "string \<Rightarrow> string" where
  "toLowerCase s = map toLowerCase_char s"

fun starts_with :: "string \<Rightarrow> string \<Rightarrow> bool" where
  "starts_with s [] = True"
| "starts_with [] (k # ks) = False"
| "starts_with (c # s) (k # ks) = (c = k \<and> starts_with s ks)"

fun str_includes :: "string \<Rightarrow> string \<Rightarrow> bool" where
  "str_includes [] k = (k = [])"
| "str_includes (c # s) k = (starts_with (c # s) k \<or> str_includes s k)"

definition checkRationale :: "FieldConfig \<Rightarrow> string \<Rightarrow> RationaleResult" where
  "checkRationale field rat =
     (let minLen = num_or (rationaleMinLength field) (Fin 30)
      in if rat = [] \<or> num_lt (str_length rat) minLen
         then \<lparr> rat_valid = False, rat_error = Some (TooShort minLen) \<rparr>
         else (case rationaleKeywords field of
                 None \<Rightarrow> \<lparr> rat_valid = True, rat_error = None \<rparr>
               | Some kws \<Rightarrow>
                   if kws \<noteq> [] \<and>
                      \<not> list_ex (\<lambda>kw. str_includes (toLowerCase rat) (toLowerCase kw)) kws
                   then \<lparr> rat_valid = False, rat_error = Some (NoKeyword kws) \<rparr>
                   else \<lparr> rat_valid = True, rat_error = None \<rparr>))"


section \<open>The submission gate (\<^verbatim>\<open>App.tsx\<close>)\<close>

text \<open>
  The part of \<^verbatim>\<open>AppState\<close> the gate reads.  An object that is enumerated
  (\<^verbatim>\<open>Object.values\<close>, \<^verbatim>\<open>Object.entries\<close>) is a list of its entries.
\<close>

record AppState =
  formData :: formdata
  exceptions :: "(string \<times> Exception) list"
  auditLog :: "AuditEntry list"

type_synonym errors = "(string \<times> ValidationResult) list"

text \<open>\<^verbatim>\<open>errors[k] = v\<close>\<close>

fun assign :: "string \<Rightarrow> 'a \<Rightarrow> (string \<times> 'a) list \<Rightarrow> (string \<times> 'a) list" where
  "assign k v [] = [(k, v)]"
| "assign k v ((k', v') # kvs) = (if k' = k then (k, v) # kvs else (k', v') # assign k v kvs)"

text \<open>The validation effect: every field is evaluated, the invalid verdicts are kept.\<close>

fun collect_errors ::
  "platform \<Rightarrow> FieldConfig list \<Rightarrow> formdata \<Rightarrow> AuditEntry list \<Rightarrow> errors \<Rightarrow> error + errors" where
  "collect_errors plat [] fd hist errs = Inr errs"
| "collect_errors plat (field # fs) fd hist errs =
     (case validateField plat field (lookup fd (fid field)) fd hist of
        Inl e \<Rightarrow> Inl e
      | Inr result \<Rightarrow>
          collect_errors plat fs fd hist (if \<not> valid result then assign (fid field) result errs else errs))"

definition validationErrors :: "platform \<Rightarrow> RulesConfig \<Rightarrow> AppState \<Rightarrow> error + errors" where
  "validationErrors plat cfg st = collect_errors plat (schema_fields cfg) (formData st) (auditLog st) []"

definition activeExceptionsCount :: "AppState \<Rightarrow> nat" where
  "activeExceptionsCount st = length (filter active (map snd (exceptions st)))"

definition isFlagged :: "RulesConfig \<Rightarrow> AppState \<Rightarrow> bool" where
  "isFlagged cfg st = num_gt (Fin (of_nat (activeExceptionsCount st))) (maxExceptions (systemRules cfg))"

text \<open>The callback of \<^verbatim>\<open>Object.entries(validationErrors).some\<close>.\<close>

definition blocks :: "RulesConfig \<Rightarrow> AppState \<Rightarrow> string \<times> ValidationResult \<Rightarrow> bool" where
  "blocks cfg st entry =
     (case entry of (i, result) \<Rightarrow>
        (case find (\<lambda>f. fid f = i) (schema_fields cfg) of
           None \<Rightarrow> False
         | Some field \<Rightarrow>
             if category field = Strict \<and> \<not> valid result then True
             else if category field = Soft \<and> \<not> valid result \<and>
                     (case map_of (exceptions st) i of
                        None \<Rightarrow> True
                      | Some exc \<Rightarrow> \<not> active exc \<or> \<not> rat_valid (checkRationale field (rationale exc)))
                  then True
             else if res_blockSubmission result = Some True then True
             else False))"

definition hasStrictErrors :: "RulesConfig \<Rightarrow> errors \<Rightarrow> AppState \<Rightarrow> bool" where
  "hasStrictErrors cfg errs st = list_ex (blocks cfg st) errs"

definition is_missing :: "AppState \<Rightarrow> FieldConfig \<Rightarrow> bool" where
  "is_missing st f =
     (let val = lookup (formData st) (fid f);
          isRequired = list_ex (\<lambda>v. rtype v = R_required) (validations f)
      in isRequired \<and> (val = JUndefined \<or> val = JNull \<or> val = JStr []))"

definition missingRequired :: "RulesConfig \<Rightarrow> AppState \<Rightarrow> bool" where
  "missingRequired cfg st = list_ex (is_missing st) (schema_fields cfg)"

definition canSubmit :: "RulesConfig \<Rightarrow> errors \<Rightarrow> AppState \<Rightarrow> bool" where
  "canSubmit cfg errs st = (\<not> hasStrictErrors cfg errs st \<and> \<not> missingRequired cfg st)"

section \<open>The shipped schema (\<^verbatim>\<open>rulesConfig\<close>)\<close>

definition rule :: "rule_type \<Rightarrow> string option \<Rightarrow> ValidationRule" where
  "rule t m =
     \<lparr> rtype = t, message = m, rvalue = JUndefined, pattern = None, rmin = None, rmax = None,
       checkStorage = None, blockSubmission = None, bannerMessage = None, conditions = None \<rparr>"

definition cond :: "string \<Rightarrow> condition" where
  "cond w =
     \<lparr> when_c = w, is_c = JUndefined, in_c = None, requires_c = None, min_c = None, max_c = None,
       message_c = None \<rparr>"

definition strict_field :: "string \<Rightarrow> string \<Rightarrow> input_type \<Rightarrow> ValidationRule list \<Rightarrow> FieldConfig" where
  "strict_field i l t vs =
     \<lparr> fid = i, label = l, ftype = t, category = Strict, options = None, subType = None,
       validations = vs, allowException = False, rationaleKeywords = None,
       rationaleMinLength = None \<rparr>"

definition soft_field :: "string \<Rightarrow> string \<Rightarrow> input_type \<Rightarrow> ValidationRule list \<Rightarrow> FieldConfig" where
  "soft_field i l t vs =
     \<lparr> fid = i, label = l, ftype = t, category = Soft, options = None, subType = None,
       validations = vs, allowException = True,
       rationaleKeywords = Some [''approved by'', ''special case'', ''documentation pending'', ''waiver granted''],
       rationaleMinLength = Some (Fin 30) \<rparr>"

definition field_fullName :: FieldConfig where
  "field_fullName = strict_field ''fullName'' ''Full Name'' T_text
     [rule R_required (Some ''Full name is required''),
      (rule R_minLength (Some ''Name must be at least 2 characters''))\<lparr> rvalue := JNum (Fin 2) \<rparr>,
      (rule R_noNumbers (Some ''Name cannot contain numbers''))\<lparr> pattern := Some ''^[^0-9]*$'' \<rparr>]"

definition field_email :: FieldConfig where
  "field_email = strict_field ''email'' ''Email Address'' T_email
     [rule R_required (Some ''Email is required''),
      rule R_emailFormat (Some ''Enter a valid email address (e.g., name@company.com)''),
      (rule R_unique (Some ''This email is already registered''))\<lparr> checkStorage := Some True \<rparr>]"

definition field_phone :: FieldConfig where
  "field_phone = strict_field ''phone'' ''Phone Number'' T_tel
     [rule R_required (Some ''Phone number is required''),
      (rule R_pattern (Some ''Enter 10-digit Indian mobile number starting with 6-9''))
         \<lparr> pattern := Some (''^[6-9]'' @ [CHR 0x5C] @ ''d{9}$'') \<rparr>]"

definition field_dob :: FieldConfig where
  "field_dob = soft_field ''dob'' ''Date of Birth'' T_date
     [rule R_required (Some ''Date of birth is required''),
      (rule R_ageRange (Some ''Candidate must be 18-35 years old''))
         \<lparr> rmin := Some (Fin 18), rmax := Some (Fin 35) \<rparr>]"

definition field_qualification :: FieldConfig where
  "field_qualification =
     (strict_field ''qualification'' ''Highest Qualification'' T_select
        [rule R_required (Some ''Please select a qualification'')])
     \<lparr> options := Some [''B.Tech'', ''B.E.'', ''B.Sc'', ''BCA'', ''M.Tech'', ''M.Sc'', ''MCA'', ''MBA''] \<rparr>"

definition field_graduationYear :: FieldConfig where
  "field_graduationYear = soft_field ''graduationYear'' ''Graduation Year'' T_number
     [rule R_required (Some ''Graduation year is required''),
      (rule R_range (Some ''Graduation year must be between 2015-2025''))
         \<lparr> rmin := Some (Fin 2015), rmax := Some (Fin 2025) \<rparr>]"

text \<open>The sign \<^verbatim>\<open>>=\<close> of the two score messages is one character in the source; it is written here in UTF-8.\<close>

definition ge_sign :: string where
  "ge_sign = [CHR 0xE2, CHR 0x89, CHR 0xA5]"

definition field_scoreValue :: FieldConfig where
  "field_scoreValue =
     (soft_field ''scoreValue'' ''Percentage / CGPA'' T_number
        [rule R_required (Some ''Score is required''),
         (rule R_conditional None)
           \<lparr> conditions := Some
               [(cond ''scoreType'')
                  \<lparr> is_c := JStr ''percentage'', min_c := Some (Fin 60),
                    message_c := Some (''Percentage must be '' @ ge_sign @ '' 60%'') \<rparr>,
                (cond ''scoreType'')
                  \<lparr> is_c := JStr ''cgpa'', min_c := Some (Fin 6), max_c := Some (Fin 10),
                    message_c := Some (''CGPA must be '' @ ge_sign @ '' 6.0 on 10-point scale'') \<rparr>] \<rparr>])
     \<lparr> subType := Some T_toggle \<rparr>"

definition field_screeningScore :: FieldConfig where
  "field_screeningScore = soft_field ''screeningScore'' ''Screening Test Score'' T_number
     [rule R_required (Some ''Screening score is required''),
      (rule R_range (Some ''Score must be 0-100''))\<lparr> rmin := Some (Fin 0), rmax := Some (Fin 100) \<rparr>,
      (rule R_minValue (Some ''Minimum qualifying score is 40/100''))\<lparr> rvalue := JNum (Fin 40) \<rparr>]"

definition field_interviewStatus :: FieldConfig where
  "field_interviewStatus =
     (strict_field ''interviewStatus'' ''Interview Status'' T_select
        [rule R_required (Some ''Interview status is required''),
         (rule R_notEquals None)
           \<lparr> rvalue := JStr ''Rejected'', blockSubmission := Some True,
             bannerMessage := Some ''Rejected candidates cannot be enrolled'' \<rparr>])
     \<lparr> options := Some [''Cleared'', ''Waitlisted'', ''Rejected''] \<rparr>"

definition field_aadhaar :: FieldConfig where
  "field_aadhaar = strict_field ''aadhaar'' ''Aadhaar Number'' T_text
     [rule R_required (Some ''Aadhaar number is required''),
      (rule R_exactLength (Some ''Aadhaar must be exactly 12 digits''))\<lparr> rvalue := JNum (Fin 12) \<rparr>,
      (rule R_pattern (Some ''Aadhaar must contain only numbers''))
         \<lparr> pattern := Some (''^'' @ [CHR 0x5C] @ ''d{12}$'') \<rparr>]"

definition field_offerLetterSent :: FieldConfig where
  "field_offerLetterSent = strict_field ''offerLetterSent'' ''Offer Letter Sent'' T_toggle
     [(rule R_conditional None)
        \<lparr> conditions := Some
            [(cond ''offerLetterSent'')
               \<lparr> is_c := JBool True, requires_c := Some ''interviewStatus'',
                 in_c := Some [JStr ''Cleared'', JStr ''Waitlisted''],
                 message_c := Some ''Offer letter can only be sent if interview is Cleared or Waitlisted'' \<rparr>] \<rparr>]"

definition rulesConfig :: RulesConfig where
  "rulesConfig =
     \<lparr> schema_fields =
         [field_fullName, field_email, field_phone, field_dob, field_qualification,
          field_graduationYear, field_scoreValue, field_screeningScore, field_interviewStatus,
          field_aadhaar, field_offerLetterSent],
       systemRules =
         \<lparr> maxExceptions = Fin 2,
           flagMessage = ''This candidate has more than 2 exceptions. Entry will be flagged for manager review.'' \<rparr> \<rparr>"

text \<open>
  A host for running the model: the reference compiler for patterns, and a clock on
  which no value is a valid date (the evaluations in this theory never reach an
  \<^verbatim>\<open>ageRange\<close> rule).
\<close>

definition host :: platform where
  "host = \<lparr> new_RegExp = RegExp_test, age_in_years = (\<lambda>_. NaN) \<rparr>"

section \<open>Sample states and fields\<close>

definition two_active :: AppState where
  "two_active = \<lparr> formData = Map.empty,
      exceptions = [(''dob'', \<lparr> active = True, rationale = [] \<rparr>),
                    (''scoreValue'', \<lparr> active = False, rationale = [] \<rparr>),
                    (''graduationYear'', \<lparr> active = True, rationale = [] \<rparr>)],
      auditLog = [] \<rparr>"

definition three_active :: AppState where
  "three_active = \<lparr> formData = Map.empty,
      exceptions = [(''dob'', \<lparr> active = True, rationale = [] \<rparr>),
                    (''scoreValue'', \<lparr> active = True, rationale = [] \<rparr>),
                    (''graduationYear'', \<lparr> active = True, rationale = [] \<rparr>)],
      auditLog = [] \<rparr>"

definition score_record :: formdata where
  "score_record = [''scoreType'' \<mapsto> JStr ''percentage'', ''scoreValue'' \<mapsto> JStr ''55'']"

definition field_two_rules :: FieldConfig where
  "field_two_rules = strict_field ''nickname'' ''Nickname'' T_text
     [rule R_required (Some ''Nickname is required''),
      (rule R_minLength (Some ''Nickname must be at least 3 characters''))\<lparr> rvalue := JNum (Fin 3) \<rparr>]"

definition field_zero_min :: FieldConfig where
  "field_zero_min = field_dob \<lparr> rationaleKeywords := None, rationaleMinLength := Some (Fin 0) \<rparr>"

definition prior_entry :: "jsval \<Rightarrow> AuditEntry" where
  "prior_entry v =
     \<lparr> entry_id = ''e1'', timestamp = ''2026-01-05T10:00:00.000Z'',
       entry_formData = Some [''email'' \<mapsto> v], entry_exceptions = [], exceptionCount = 0,
       entry_isFlagged = False \<rparr>"

text \<open>A history element without \<^verbatim>\<open>formData\<close>.\<close>

definition bare_entry :: AuditEntry where
  "bare_entry =
     \<lparr> entry_id = ''e0'', timestamp = ''2026-01-04T09:00:00.000Z'', entry_formData = None,
       entry_exceptions = [], exceptionCount = 0, entry_isFlagged = False \<rparr>"


section \<open>Specification-side notions\<close>

text \<open>
  The shape \<^verbatim>\<open>local@domain.tld\<close> in words: three non-empty parts free of white space
  and of \<^verbatim>\<open>@\<close>, joined by one \<^verbatim>\<open>@\<close> and a dot.
\<close>

definition email_shape :: "string \<Rightarrow> bool" where
  "email_shape s =
     (\<exists>l dm t. s = l @ ''@'' @ dm @ ''.'' @ t \<and> l \<noteq> [] \<and> dm \<noteq> [] \<and> t \<noteq> [] \<and>
        (\<forall>c \<in> set (l @ dm @ t). \<not> is_ws c \<and> c \<noteq> CHR ''@''))"

text \<open>A history entry that carries a record, and one that records a strictly equal value.\<close>

definition has_formData :: "AuditEntry \<Rightarrow> bool" where
  "has_formData e = (entry_formData e \<noteq> None)"

definition records_equal :: "AuditEntry \<Rightarrow> string \<Rightarrow> jsval \<Rightarrow> bool" where
  "records_equal e k v =
     (case entry_formData e of None \<Rightarrow> False | Some fd \<Rightarrow> strict_eq (lookup fd k) v)"

text \<open>The two conditions of the submission gate, in the words of the specification.\<close>

definition spec_hasBlockingFailure :: "RulesConfig \<Rightarrow> errors \<Rightarrow> AppState \<Rightarrow> bool" where
  "spec_hasBlockingFailure cfg errs st =
     (\<exists>f \<in> set (schema_fields cfg). \<exists>result.
        (fid f, result) \<in> set errs \<and> \<not> valid result \<and>
        (category f = Strict \<or> res_blockSubmission result = Some True \<or>
         (category f = Soft \<and>
            ((\<nexists>exc. map_of (exceptions st) (fid f) = Some exc \<and> active exc) \<or>
             (\<exists>exc. map_of (exceptions st) (fid f) = Some exc \<and> active exc \<and>
                    \<not> rat_valid (checkRationale f (rationale exc)))))))"

definition spec_missingRequired :: "RulesConfig \<Rightarrow> AppState \<Rightarrow> bool" where
  "spec_missingRequired cfg st =
     (\<exists>f \<in> set (schema_fields cfg).
        (\<exists>v \<in> set (validations f). rtype v = R_required) \<and>
        lookup (formData st) (fid f) \<in> {JUndefined, JNull, JStr []})"

section \<open>Sample records\<close>

text \<open>A complete record; the date of birth holds \<^verbatim>\<open>false\<close>.\<close>

definition complete_record :: formdata where
  "complete_record =
     [''fullName'' \<mapsto> JStr ''Asha Rao'', ''email'' \<mapsto> JStr ''asha@example.com'',
      ''phone'' \<mapsto> JStr ''9876543210'', ''dob'' \<mapsto> JBool False,
      ''qualification'' \<mapsto> JStr ''B.Tech'', ''graduationYear'' \<mapsto> JStr ''2020'',
      ''scoreType'' \<mapsto> JStr ''percentage'', ''scoreValue'' \<mapsto> JStr ''72.5'',
      ''screeningScore'' \<mapsto> JStr ''55'', ''interviewStatus'' \<mapsto> JStr ''Cleared'',
      ''aadhaar'' \<mapsto> JStr ''123456789012'', ''offerLetterSent'' \<mapsto> JBool False]"

definition waiver_state :: AppState where
  "waiver_state =
     \<lparr> formData = complete_record,
       exceptions = [(''dob'', \<lparr> active = True, rationale = ''Age waiver approved by the director'' \<rparr>)],
       auditLog = [] \<rparr>"

definition rejected_state :: AppState where
  "rejected_state =
     \<lparr> formData = complete_record(''interviewStatus'' \<mapsto> JStr ''Rejected''),
       exceptions = [],
       auditLog = [] \<rparr>"

definition rejected_exceptions :: "(string \<times> Exception) list" where
  "rejected_exceptions =
     [(''interviewStatus'', \<lparr> active = True, rationale = ''Special case approved by the dean'' \<rparr>),
      (''dob'', \<lparr> active = True, rationale = ''Age waiver approved by the director'' \<rparr>)]"

text \<open>A schema whose flagged \<^verbatim>\<open>notEquals\<close> rule sits in a soft field.\<close>

definition field_soft_status :: FieldConfig where
  "field_soft_status = soft_field ''interviewStatus'' ''Interview Status'' T_select
     [rule R_required (Some ''Interview status is required''),
      (rule R_notEquals None)
        \<lparr> rvalue := JStr ''Rejected'', blockSubmission := Some True,
          bannerMessage := Some ''Rejected candidates cannot be enrolled'' \<rparr>]"

definition soft_status_config :: RulesConfig where
  "soft_status_config = \<lparr> schema_fields = [field_soft_status], systemRules = systemRules rulesConfig \<rparr>"

definition soft_rejected_state :: AppState where
  "soft_rejected_state =
     \<lparr> formData = [''interviewStatus'' \<mapsto> JStr ''Rejected''], exceptions = [], auditLog = [] \<rparr>"

text \<open>A schema in which a \<^verbatim>\<open>minValue\<close> rule of a soft field carries \<^verbatim>\<open>blockSubmission\<close>.\<close>

definition field_flagged_min :: FieldConfig where
  "field_flagged_min = soft_field ''screeningScore'' ''Screening Test Score'' T_number
     [(rule R_minValue (Some ''Minimum qualifying score is 40/100''))
        \<lparr> rvalue := JNum (Fin 40), blockSubmission := Some True \<rparr>]"

definition flagged_config :: RulesConfig where
  "flagged_config = \<lparr> schema_fields = [field_flagged_min], systemRules = systemRules rulesConfig \<rparr>"

definition low_score_state :: AppState where
  "low_score_state =
     \<lparr> formData = [''screeningScore'' \<mapsto> JStr ''10''],
       exceptions = [(''screeningScore'',
                      \<lparr> active = True, rationale = ''Special case approved by the dean'' \<rparr>)],
       auditLog = [] \<rparr>"

section \<open>Properties\<close>

subsection \<open>The flag threshold\<close>

lemma card_active_keys:
  "distinct (map fst xs) \<Longrightarrow>
   card {k. \<exists>e. map_of xs k = Some e \<and> P e} = length (filter P (map snd xs))"
proof (induction xs)
  case Nil
  then show ?case by simp
next
  case (Cons x xs)
  obtain k e where x: "x = (k, e)" by (cases x)
  from Cons.prems x have notin: "k \<notin> fst ` set xs" and d: "distinct (map fst xs)" by auto
  let ?S = "{k'. \<exists>e'. map_of xs k' = Some e' \<and> P e'}"
  have fin: "finite ?S"
    by (rule finite_subset [of _ "dom (map_of xs)"]) (auto simp: finite_dom_map_of)
  have kS: "k \<notin> ?S" using notin by (auto dest: map_of_SomeD intro: rev_image_eqI)
  have eq: "{k'. \<exists>e'. map_of (x # xs) k' = Some e' \<and> P e'} = (if P e then insert k ?S else ?S)"
    using x kS by auto
  have len: "length (filter P (map snd (x # xs))) =
      (if P e then Suc (length (filter P (map snd xs))) else length (filter P (map snd xs)))"
    using x by simp
  show ?case
    unfolding eq len using Cons.IH [OF d] card_insert_disjoint [OF fin kS] by presburger
qed

text \<open>
  Claim C5.  An exception object has one entry per key.  \<^verbatim>\<open>isFlagged\<close> holds exactly when
  the number of keys whose exception is active is strictly greater than
  \<^verbatim>\<open>maxExceptions\<close>: for a finite limit \<open>m\<close> when \<open>m\<close> is less than that number, for
  the limit \<^verbatim>\<open>-Infinity\<close> always, for \<^verbatim>\<open>Infinity\<close> and \<^verbatim>\<open>NaN\<close> never.  With the shipped
  limit 2 (see the witness), two active exceptions do not flag the record and three do.
\<close>

theorem isFlagged_strictly_greater:
  assumes "distinct (map fst (exceptions st))"
  shows "isFlagged cfg st \<longleftrightarrow>
           (case maxExceptions (systemRules cfg) of
              Fin m \<Rightarrow> m < of_nat (card {k. \<exists>e. map_of (exceptions st) k = Some e \<and> active e})
            | NegInf \<Rightarrow> True
            | NaN \<Rightarrow> False
            | PosInf \<Rightarrow> False)"
  unfolding isFlagged_def activeExceptionsCount_def num_gt_def card_active_keys [OF assms]
  by (cases "maxExceptions (systemRules cfg)") simp_all

theorem isFlagged_strictly_greater_witness:
  "distinct (map fst (exceptions two_active)) \<and> distinct (map fst (exceptions three_active)) \<and>
   maxExceptions (systemRules rulesConfig) = Fin 2 \<and>
   activeExceptionsCount two_active = 2 \<and> \<not> isFlagged rulesConfig two_active \<and>
   \<not> (2::rat) < of_nat (card {k. \<exists>e. map_of (exceptions two_active) k = Some e \<and> active e}) \<and>
   activeExceptionsCount three_active = 3 \<and> isFlagged rulesConfig three_active \<and>
   (2::rat) < of_nat (card {k. \<exists>e. map_of (exceptions three_active) k = Some e \<and> active e})"
proof -
  have d2: "distinct (map fst (exceptions two_active))" by (simp add: two_active_def)
  have d3: "distinct (map fst (exceptions three_active))" by (simp add: three_active_def)
  have m: "maxExceptions (systemRules rulesConfig) = Fin 2" by (simp add: rulesConfig_def)
  have c2: "activeExceptionsCount two_active = 2"
    by (simp add: activeExceptionsCount_def two_active_def)
  have c3: "activeExceptionsCount three_active = 3"
    by (simp add: activeExceptionsCount_def three_active_def)
  have f2: "\<not> isFlagged rulesConfig two_active"
    by (simp add: isFlagged_def c2 m num_gt_def)
  have f3: "isFlagged rulesConfig three_active"
    by (simp add: isFlagged_def c3 m num_gt_def)
  have s2: "\<not> (2::rat) < of_nat (card {k. \<exists>e. map_of (exceptions two_active) k = Some e \<and> active e})"
    using isFlagged_strictly_greater [OF d2, of rulesConfig] f2 unfolding m by simp
  have s3: "(2::rat) < of_nat (card {k. \<exists>e. map_of (exceptions three_active) k = Some e \<and> active e})"
    using isFlagged_strictly_greater [OF d3, of rulesConfig] f3 unfolding m by simp
  show ?thesis
    using d2 d3 m c2 c3 f2 f3 s2 s3 by blast
qed

subsection \<open>Rule order and the first failure\<close>

lemma apply_rules_skip:
  "\<forall>p \<in> set pre. check_rule plat f p v d h = Inr None \<Longrightarrow>
   apply_rules plat f (pre @ rest) v d h = apply_rules plat f rest v d h"
  by (induction pre) simp_all

lemma check_rule_failure_shape:
  assumes "check_rule plat f r v d h = Inr (Some res)"
  shows "\<not> valid res \<and> isSoft res = (category f = Soft)"
  using assms
  by (cases "rtype r")
     (auto simp: check_rule_def failure_def Let_def
           split: if_splits jsval.splits option.splits sum.splits)

lemma check_rule_failure_message:
  assumes "check_rule plat f r v d h = Inr (Some res)" and "rtype r \<noteq> R_conditional"
  shows "error res = msg (message r)"
  using assms
  by (cases "rtype r")
     (auto simp: check_rule_def failure_def Let_def
           split: if_splits jsval.splits option.splits sum.splits)

lemma check_rule_conditional_message:
  assumes "check_rule plat f r v d h = Inr (Some res)" and "rtype r = R_conditional"
  shows "\<exists>cs c. conditions r = Some cs \<and> first_failing cs v d = Some c \<and>
           error res = msg_or (message_c c) (message r)"
  using assms
  by (auto simp: check_rule_def failure_def Let_def split: option.splits)

lemmas field_defs = field_fullName_def field_email_def field_phone_def field_dob_def
  field_qualification_def field_graduationYear_def field_scoreValue_def field_screeningScore_def
  field_interviewStatus_def field_aadhaar_def field_offerLetterSent_def
  strict_field_def soft_field_def rule_def cond_def

lemmas number_defs = string_to_number_def trim_def is_ws_def unsigned_decimal_def is_digit_def
  digits_val_def scale10_def radix_literal_def num_or_def val_or_def str_length_def

text \<open>
  Claim C2, amended.  The rules of a field are applied in list order.  When the rules
  before \<open>r\<close> pass and \<open>r\<close> fails, \<^verbatim>\<open>validateField\<close> returns the verdict of \<open>r\<close>,
  whatever the later rules \<open>post\<close> are (they are not evaluated: the result does not
  depend on them, not even on one that would throw).  The verdict is invalid and carries
  the message of \<open>r\<close>; for a \<^verbatim>\<open>conditional\<close> rule it carries the message of the failing
  sub-condition when that is a non-empty text, and the message of the rule otherwise.
  When every rule passes the result is valid with error \<^verbatim>\<open>null\<close>.  For a field whose
  rules are \<^verbatim>\<open>[required, minLength]\<close> the empty string yields the \<^verbatim>\<open>required\<close> message.
\<close>

theorem validateField_first_failure:
  "(validations f = pre @ r # post \<and>
    (\<forall>p \<in> set pre. check_rule plat f p v d h = Inr None) \<and>
    check_rule plat f r v d h = Inr (Some res)
      \<longrightarrow> validateField plat f v d h = Inr res \<and> \<not> valid res \<and>
          (rtype r \<noteq> R_conditional \<longrightarrow> error res = msg (message r)) \<and>
          (rtype r = R_conditional \<longrightarrow>
             (\<exists>cs c. conditions r = Some cs \<and> first_failing cs v d = Some c \<and>
                      error res = msg_or (message_c c) (message r)))) \<and>
   ((\<forall>p \<in> set (validations f). check_rule plat f p v d h = Inr None)
      \<longrightarrow> validateField plat f v d h =
            Inr \<lparr> valid = True, error = JNull, isSoft = (category f = Soft), res_blockSubmission = None \<rparr>) \<and>
   (validations f = [ra, rb] \<and> rtype ra = R_required \<and> rtype rb = R_minLength
      \<longrightarrow> validateField plat f (JStr []) d h = Inr (failure f (msg (message ra))))"
proof (intro conjI impI)
  assume a: "validations f = pre @ r # post \<and>
    (\<forall>p \<in> set pre. check_rule plat f p v d h = Inr None) \<and>
    check_rule plat f r v d h = Inr (Some res)"
  then have "apply_rules plat f (pre @ r # post) v d h = apply_rules plat f (r # post) v d h"
    using apply_rules_skip by blast
  with a show "validateField plat f v d h = Inr res"
    by (simp add: validateField_def)
  from a show "\<not> valid res" using check_rule_failure_shape by blast
  from a show "rtype r \<noteq> R_conditional \<Longrightarrow> error res = msg (message r)"
    using check_rule_failure_message by blast
  from a show "rtype r = R_conditional \<Longrightarrow>
      \<exists>cs c. conditions r = Some cs \<and> first_failing cs v d = Some c \<and>
             error res = msg_or (message_c c) (message r)"
    using check_rule_conditional_message by blast
next
  assume "\<forall>p \<in> set (validations f). check_rule plat f p v d h = Inr None"
  then show "validateField plat f v d h =
       Inr \<lparr> valid = True, error = JNull, isSoft = (category f = Soft), res_blockSubmission = None \<rparr>"
    using apply_rules_skip [of "validations f" plat f v d h "[]"]
    by (simp add: validateField_def)
next
  assume "validations f = [ra, rb] \<and> rtype ra = R_required \<and> rtype rb = R_minLength"
  then show "validateField plat f (JStr []) d h = Inr (failure f (msg (message ra)))"
    by (simp add: validateField_def check_rule_def)
qed

theorem validateField_first_failure_witness:
  "validateField host field_scoreValue (JStr ''55'') score_record [] =
     Inr (failure field_scoreValue (JStr (''Percentage must be '' @ ge_sign @ '' 60%''))) \<and>
   validateField host field_fullName (JStr ''A1'') Map.empty [] =
     Inr (failure field_fullName (JStr ''Name cannot contain numbers'')) \<and>
   validateField host field_fullName (JStr ''Asha Rao'') Map.empty [] =
     Inr \<lparr> valid = True, error = JNull, isSoft = False, res_blockSubmission = None \<rparr> \<and>
   validateField host field_two_rules (JStr []) Map.empty [] =
     Inr (failure field_two_rules (JStr ''Nickname is required''))"
proof -
  let ?req = "rule R_required (Some ''Score is required'')"
  let ?cnd = "validations field_scoreValue ! 1"
  let ?res = "failure field_scoreValue (JStr (''Percentage must be '' @ ge_sign @ '' 60%''))"
  have s1: "validations field_scoreValue = [?req] @ ?cnd # []"
    by (simp add: field_defs)
  have s2: "\<forall>p \<in> set [?req]. check_rule host field_scoreValue p (JStr ''55'') score_record [] = Inr None"
    by (simp add: check_rule_def rule_def)
  have s3: "check_rule host field_scoreValue ?cnd (JStr ''55'') score_record [] = Inr (Some ?res)"
    by (simp add: check_rule_def field_defs cond_fails_def cond_applies_def requires_fails_def
        bounds_fail_def lookup_def score_record_def number_defs msg_or_def)
  have a: "validateField host field_scoreValue (JStr ''55'') score_record [] = Inr ?res"
    using validateField_first_failure
      [where f = field_scoreValue and pre = "[?req]" and r = ?cnd and post = "[]"
         and plat = host and v = "JStr ''55''" and d = score_record and h = "[]" and res = ?res]
      s1 s2 s3 by blast
  let ?r1 = "rule R_required (Some ''Full name is required'')"
  let ?r2 = "(rule R_minLength (Some ''Name must be at least 2 characters''))\<lparr> rvalue := JNum (Fin 2) \<rparr>"
  let ?r3 = "(rule R_noNumbers (Some ''Name cannot contain numbers''))\<lparr> pattern := Some ''^[^0-9]*$'' \<rparr>"
  let ?res2 = "failure field_fullName (JStr ''Name cannot contain numbers'')"
  have n1: "validations field_fullName = [?r1, ?r2] @ ?r3 # []"
    by (simp add: field_defs)
  have n2: "\<forall>p \<in> set [?r1, ?r2]. check_rule host field_fullName p (JStr ''A1'') Map.empty [] = Inr None"
    by (simp add: check_rule_def rule_def number_defs)
  have n3: "check_rule host field_fullName ?r3 (JStr ''A1'') Map.empty [] = Inr (Some ?res2)"
    by (simp add: check_rule_def rule_def digit_regex_def regex_test_def any_run_def is_digit_def msg_def)
  have b: "validateField host field_fullName (JStr ''A1'') Map.empty [] = Inr ?res2"
    using validateField_first_failure
      [where f = field_fullName and pre = "[?r1, ?r2]" and r = ?r3 and post = "[]"
         and plat = host and v = "JStr ''A1''" and d = Map.empty and h = "[]" and res = ?res2]
      n1 n2 n3 by blast
  have p1: "\<forall>p \<in> set (validations field_fullName).
      check_rule host field_fullName p (JStr ''Asha Rao'') Map.empty [] = Inr None"
    by (simp add: field_defs check_rule_def number_defs digit_regex_def regex_test_def any_run_def)
  have c: "validateField host field_fullName (JStr ''Asha Rao'') Map.empty [] =
     Inr \<lparr> valid = True, error = JNull, isSoft = False, res_blockSubmission = None \<rparr>"
    using validateField_first_failure
      [where f = field_fullName and plat = host and v = "JStr ''Asha Rao''" and d = Map.empty and h = "[]"]
      p1 by (simp add: field_defs)
  let ?q1 = "rule R_required (Some ''Nickname is required'')"
  let ?q2 = "(rule R_minLength (Some ''Nickname must be at least 3 characters''))\<lparr> rvalue := JNum (Fin 3) \<rparr>"
  have t1: "validations field_two_rules = [?q1, ?q2] \<and> rtype ?q1 = R_required \<and> rtype ?q2 = R_minLength"
    by (simp add: field_two_rules_def strict_field_def rule_def)
  have d: "validateField host field_two_rules (JStr []) Map.empty [] =
     Inr (failure field_two_rules (JStr ''Nickname is required''))"
    using validateField_first_failure
      [where f = field_two_rules and ra = ?q1 and rb = ?q2 and plat = host and d = Map.empty and h = "[]"]
      t1 by (simp add: rule_def msg_def)
  show ?thesis using a b c d by blast
qed

text \<open>
  Claim C2 as stated fails on the shipped schema: for \<^verbatim>\<open>scoreValue = "55"\<close> with
  \<^verbatim>\<open>scoreType = "percentage"\<close> the first failing rule is the \<^verbatim>\<open>conditional\<close> rule, which
  has no message of its own, and the verdict carries the text of its sub-condition.
\<close>

theorem validateField_message_counterexample:
  "check_rule host field_scoreValue (validations field_scoreValue ! 0) (JStr ''55'') score_record [] = Inr None \<and>
   rtype (validations field_scoreValue ! 1) = R_conditional \<and>
   message (validations field_scoreValue ! 1) = None \<and>
   validateField host field_scoreValue (JStr ''55'') score_record [] =
     Inr \<lparr> valid = False, error = JStr (''Percentage must be '' @ ge_sign @ '' 60%''),
           isSoft = True, res_blockSubmission = None \<rparr>"
  by (simp add: validateField_def check_rule_def field_defs cond_fails_def cond_applies_def
      requires_fails_def bounds_fail_def lookup_def score_record_def number_defs msg_or_def failure_def)

subsection \<open>The rationale gate\<close>


lemma starts_with_iff: "starts_with s k \<longleftrightarrow> (\<exists>q. s = k @ q)"
  by (induction s k rule: starts_with.induct) auto

lemma str_includes_iff: "str_includes s k \<longleftrightarrow> (\<exists>p q. s = p @ k @ q)"
proof (induction s)
  case Nil
  then show ?case by simp
next
  case (Cons c s)
  show ?case
  proof
    assume "str_includes (c # s) k"
    then consider "starts_with (c # s) k" | "str_includes s k" by auto
    then show "\<exists>p q. c # s = p @ k @ q"
    proof cases
      case 1
      then obtain q where "c # s = k @ q" using starts_with_iff by blast
      then have "c # s = [] @ k @ q" by simp
      then show ?thesis by blast
    next
      case 2
      then obtain p q where "s = p @ k @ q" using Cons.IH by blast
      then have "c # s = (c # p) @ k @ q" by simp
      then show ?thesis by blast
    qed
  next
    assume "\<exists>p q. c # s = p @ k @ q"
    then obtain p q where pq: "c # s = p @ k @ q" by blast
    show "str_includes (c # s) k"
    proof (cases p)
      case Nil
      with pq have "starts_with (c # s) k" using starts_with_iff by auto
      then show ?thesis by simp
    next
      case (Cons a p')
      with pq have "s = p' @ k @ q" by simp
      then have "str_includes s k" using Cons.IH by blast
      then show ?thesis by simp
    qed
  qed
qed

text \<open>
  Claim C4, amended.  \<^verbatim>\<open>checkRationale\<close> fails exactly when the rationale is empty, or
  its length is strictly less than the effective minimum, or the field declares a
  non-empty keyword list and the lower-cased rationale contains none of the lower-cased
  keywords as a substring; a passing result has error \<^verbatim>\<open>null\<close>.  The effective minimum
  is \<^verbatim>\<open>rationaleMinLength\<close> when that is set to a number other than 0 and \<^verbatim>\<open>NaN\<close>, and
  30 otherwise.
\<close>

theorem checkRationale_iff:
  "(rat_valid (checkRationale f rat) \<longleftrightarrow>
      \<not> (rat = [] \<or>
         num_lt (Fin (of_nat (length rat)))
           (case rationaleMinLength f of
              None \<Rightarrow> Fin 30
            | Some n \<Rightarrow> if n = Fin 0 \<or> n = NaN then Fin 30 else n) \<or>
         (\<exists>kws. rationaleKeywords f = Some kws \<and> kws \<noteq> [] \<and>
            (\<forall>k \<in> set kws. \<not> (\<exists>p q. toLowerCase rat = p @ toLowerCase k @ q))))) \<and>
   (rat_valid (checkRationale f rat) \<longrightarrow> rat_error (checkRationale f rat) = None)"
proof -
  have m: "num_or (rationaleMinLength f) (Fin 30) =
      (case rationaleMinLength f of
         None \<Rightarrow> Fin 30
       | Some n \<Rightarrow> if n = Fin 0 \<or> n = NaN then Fin 30 else n)"
    by (cases "rationaleMinLength f"; simp add: num_or_def)
       (metis jsnum.exhaust num_truthy.simps)
  show ?thesis
    unfolding m [symmetric]
    by (cases "rationaleKeywords f")
       (auto simp: checkRationale_def Let_def str_length_def list_ex_iff str_includes_iff)
qed

subsection \<open>The e-mail pattern\<close>


lemma match_items_split:
  "match_items ((p, lo, hi) # its) s \<longleftrightarrow>
     (\<exists>u w. s = u @ w \<and> list_all p u \<and> lo \<le> length u \<and>
            (\<forall>b. hi = Some b \<longrightarrow> length u \<le> b) \<and> match_items its w)"
proof (induction s arbitrary: lo hi)
  case Nil
  then show ?case by auto
next
  case (Cons c t)
  let ?hi' = "map_option (\<lambda>b. b - 1) hi"
  show ?case
  proof
    assume "match_items ((p, lo, hi) # its) (c # t)"
    then consider "lo = 0" "match_items its (c # t)"
      | "p c" "hi \<noteq> Some 0" "match_items ((p, lo - 1, ?hi') # its) t"
      by auto
    then show "\<exists>u w. c # t = u @ w \<and> list_all p u \<and> lo \<le> length u \<and>
            (\<forall>b. hi = Some b \<longrightarrow> length u \<le> b) \<and> match_items its w"
    proof cases
      case 1
      then have "c # t = [] @ (c # t) \<and> list_all p [] \<and> lo \<le> length ([]::string) \<and>
            (\<forall>b. hi = Some b \<longrightarrow> length ([]::string) \<le> b) \<and> match_items its (c # t)"
        by simp
      then show ?thesis by blast
    next
      case 2
      then obtain u w where uw: "t = u @ w" "list_all p u" "lo - 1 \<le> length u"
          "\<forall>b. ?hi' = Some b \<longrightarrow> length u \<le> b" "match_items its w"
        using Cons.IH [of "lo - 1" ?hi'] by blast
      have "c # t = (c # u) @ w \<and> list_all p (c # u) \<and> lo \<le> length (c # u) \<and>
            (\<forall>b. hi = Some b \<longrightarrow> length (c # u) \<le> b) \<and> match_items its w"
        using uw 2 by (cases hi) auto
      then show ?thesis by blast
    qed
  next
    assume "\<exists>u w. c # t = u @ w \<and> list_all p u \<and> lo \<le> length u \<and>
            (\<forall>b. hi = Some b \<longrightarrow> length u \<le> b) \<and> match_items its w"
    then obtain u w where uw: "c # t = u @ w" "list_all p u" "lo \<le> length u"
        "\<forall>b. hi = Some b \<longrightarrow> length u \<le> b" "match_items its w"
      by blast
    show "match_items ((p, lo, hi) # its) (c # t)"
    proof (cases u)
      case Nil
      with uw show ?thesis by simp
    next
      case (Cons a u')
      with uw have t: "t = u' @ w" and a: "a = c" by auto
      have "list_all p u' \<and> lo - 1 \<le> length u' \<and>
            (\<forall>b. ?hi' = Some b \<longrightarrow> length u' \<le> b) \<and> match_items its w"
        using uw Cons by (cases hi) auto
      then have "match_items ((p, lo - 1, ?hi') # its) t"
        using Cons.IH [of "lo - 1" ?hi'] t by blast
      moreover have "p c" using uw Cons a by simp
      moreover have "hi \<noteq> Some 0" using uw Cons by auto
      ultimately show ?thesis by simp
    qed
  qed
qed

lemma match_plus:
  "match_items ((p, Suc 0, None) # its) s \<longleftrightarrow>
     (\<exists>u w. s = u @ w \<and> u \<noteq> [] \<and> (\<forall>c \<in> set u. p c) \<and> match_items its w)"
  unfolding match_items_split
  by (auto simp: list_all_iff Suc_le_eq)

lemma match_char:
  "match_items (((=) a, Suc 0, Some (Suc 0)) # its) s \<longleftrightarrow> (\<exists>w. s = a # w \<and> match_items its w)"
proof -
  have one: "\<And>u. (list_all ((=) a) u \<and> Suc 0 \<le> length u \<and> length u \<le> Suc 0) = (u = [a])"
    by (case_tac u) auto
  show ?thesis
    unfolding match_items_split
  proof
    assume "\<exists>u w. s = u @ w \<and> list_all ((=) a) u \<and> Suc 0 \<le> length u \<and>
           (\<forall>b. Some (Suc 0) = Some b \<longrightarrow> length u \<le> b) \<and> match_items its w"
    then obtain u w where "s = u @ w" "list_all ((=) a) u \<and> Suc 0 \<le> length u \<and> length u \<le> Suc 0"
        "match_items its w" by auto
    then show "\<exists>w. s = a # w \<and> match_items its w" using one by auto
  next
    assume "\<exists>w. s = a # w \<and> match_items its w"
    then obtain w where "s = [a] @ w" "match_items its w" by auto
    then have "s = [a] @ w \<and> list_all ((=) a) [a] \<and> Suc 0 \<le> length [a] \<and>
           (\<forall>b. Some (Suc 0) = Some b \<longrightarrow> length [a] \<le> b) \<and> match_items its w" by simp
    then show "\<exists>u w. s = u @ w \<and> list_all ((=) a) u \<and> Suc 0 \<le> length u \<and>
           (\<forall>b. Some (Suc 0) = Some b \<longrightarrow> length u \<le> b) \<and> match_items its w" by blast
  qed
qed

lemma email_regex_items:
  "regex_test email_regex s =
     match_items [(not_space_at, Suc 0, None), ((=) CHR ''@'', Suc 0, Some (Suc 0)),
                  (not_space_at, Suc 0, None), ((=) CHR ''.'', Suc 0, Some (Suc 0)),
                  (not_space_at, Suc 0, None)] s"
  by (simp add: regex_test_def email_regex_def del: match_items.simps)

lemma email_regex_shape: "regex_test email_regex s \<longleftrightarrow> email_shape s"
proof
  assume "regex_test email_regex s"
  then obtain l w1 where 1: "s = l @ w1" "l \<noteq> []" "\<forall>c \<in> set l. not_space_at c"
      "match_items [((=) CHR ''@'', Suc 0, Some (Suc 0)), (not_space_at, Suc 0, None),
                    ((=) CHR ''.'', Suc 0, Some (Suc 0)), (not_space_at, Suc 0, None)] w1"
    unfolding email_regex_items match_plus [of not_space_at "((=) CHR ''@'', Suc 0, Some (Suc 0)) # _"]
    by blast
  then obtain w2 where 2: "w1 = CHR ''@'' # w2"
      "match_items [(not_space_at, Suc 0, None), ((=) CHR ''.'', Suc 0, Some (Suc 0)),
                    (not_space_at, Suc 0, None)] w2"
    unfolding match_char [of "CHR ''@''"] by blast
  then obtain dm w3 where 3: "w2 = dm @ w3" "dm \<noteq> []" "\<forall>c \<in> set dm. not_space_at c"
      "match_items [((=) CHR ''.'', Suc 0, Some (Suc 0)), (not_space_at, Suc 0, None)] w3"
    unfolding match_plus [of not_space_at "((=) CHR ''.'', Suc 0, Some (Suc 0)) # _"] by blast
  then obtain w4 where 4: "w3 = CHR ''.'' # w4" "match_items [(not_space_at, Suc 0, None)] w4"
    unfolding match_char [of "CHR ''.''"] by blast
  then obtain t w5 where 5: "w4 = t @ w5" "t \<noteq> []" "\<forall>c \<in> set t. not_space_at c"
      "match_items [] w5"
    unfolding match_plus [of not_space_at "[]"] by blast
  from 5 have w5: "w5 = []" by simp
  from 1(1-3) 2(1) 3(1-3) 4(1) 5(1-3) w5
  have "s = l @ ''@'' @ dm @ ''.'' @ t \<and> l \<noteq> [] \<and> dm \<noteq> [] \<and> t \<noteq> [] \<and>
        (\<forall>c \<in> set (l @ dm @ t). \<not> is_ws c \<and> c \<noteq> CHR ''@'')"
    by (auto simp: not_space_at_def)
  then show "email_shape s" unfolding email_shape_def
    by - (rule exI [of _ l], rule exI [of _ dm], rule exI [of _ t], assumption)
next
  assume "email_shape s"
  then obtain l dm t where h: "s = l @ ''@'' @ dm @ ''.'' @ t" "l \<noteq> []" "dm \<noteq> []" "t \<noteq> []"
      "\<forall>c \<in> set (l @ dm @ t). \<not> is_ws c \<and> c \<noteq> CHR ''@''"
    unfolding email_shape_def by (elim exE conjE) (rule that, assumption+)
  then have n: "\<forall>c \<in> set l. not_space_at c" "\<forall>c \<in> set dm. not_space_at c"
      "\<forall>c \<in> set t. not_space_at c"
    by (auto simp: not_space_at_def)
  have "\<exists>u w. s = u @ w \<and> u \<noteq> [] \<and> (\<forall>c\<in>set u. not_space_at c) \<and>
      (\<exists>w'. w = CHR ''@'' # w' \<and>
        (\<exists>u' w''. w' = u' @ w'' \<and> u' \<noteq> [] \<and> (\<forall>c\<in>set u'. not_space_at c) \<and>
          (\<exists>w3. w'' = CHR ''.'' # w3 \<and>
            (\<exists>u3 w4. w3 = u3 @ w4 \<and> u3 \<noteq> [] \<and> (\<forall>c\<in>set u3. not_space_at c) \<and> w4 = []))))"
    apply (rule exI [of _ l], rule exI [of _ "''@'' @ dm @ ''.'' @ t"])
    apply (simp add: h n)
    apply (rule exI [of _ dm], rule exI [of _ "''.'' @ t"])
    apply (simp add: h n)
    done
  then show "regex_test email_regex s"
    unfolding email_regex_items match_plus match_char by simp
qed

text \<open>
  Claim C8, amended.  An \<^verbatim>\<open>emailFormat\<close> rule that is evaluated fails exactly on the
  strings that do not have the shape \<^verbatim>\<open>local@domain.tld\<close>; a value that is not a
  string passes the rule unchecked.
\<close>

theorem emailFormat_strings_only:
  "rtype r = R_emailFormat \<Longrightarrow>
   check_rule plat f r v d h =
     (case v of
        JStr s \<Rightarrow> if email_shape s then Inr None else Inr (Some (failure f (msg (message r))))
      | _ \<Rightarrow> Inr None)"
  by (cases v) (simp_all add: check_rule_def email_regex_shape)

subsection \<open>Evaluations for the rationale gate and the e-mail pattern\<close>

lemmas rationale_defs = checkRationale_def field_dob_def soft_field_def num_or_def str_length_def
  toLowerCase_def toLowerCase_char_def

theorem checkRationale_iff_witness:
  "length ''Approved by the dean, see fil'' = 29 \<and>
   \<not> rat_valid (checkRationale field_dob ''Approved by the dean, see fil'') \<and>
   length ''The candidate is a good person'' = 30 \<and>
   \<not> rat_valid (checkRationale field_dob ''The candidate is a good person'') \<and>
   length ''Age waiver approved by the director'' = 35 \<and>
   rat_valid (checkRationale field_dob ''Age waiver approved by the director'') \<and>
   rat_error (checkRationale field_dob ''Age waiver approved by the director'') = None"
proof -
  have v: "rat_valid (checkRationale field_dob ''Age waiver approved by the director'')"
    by (simp add: rationale_defs)
  have e: "rat_error (checkRationale field_dob ''Age waiver approved by the director'') = None"
    using checkRationale_iff [of field_dob "''Age waiver approved by the director''"] v by blast
  have a: "\<not> rat_valid (checkRationale field_dob ''Approved by the dean, see fil'')"
    by (simp add: rationale_defs)
  have b: "\<not> rat_valid (checkRationale field_dob ''The candidate is a good person'')"
    by (simp add: rationale_defs)
  show ?thesis using v e a b by simp
qed

text \<open>
  Claim C4 as stated fails for a field whose \<^verbatim>\<open>rationaleMinLength\<close> is 0: a rationale of
  four characters is not shorter than 0 and no keyword is asked for, yet it is rejected
  against the minimum 30.
\<close>

theorem checkRationale_default_counterexample:
  "rationaleMinLength field_zero_min = Some (Fin 0) \<and> rationaleKeywords field_zero_min = None \<and>
   ''fine'' \<noteq> [] \<and> \<not> num_lt (Fin (of_nat (length ''fine''))) (Fin 0) \<and>
   checkRationale field_zero_min ''fine'' = \<lparr> rat_valid = False, rat_error = Some (TooShort (Fin 30)) \<rparr>"
  by (simp add: field_zero_min_def rationale_defs)

theorem emailFormat_strings_only_witness:
  "rtype (validations field_email ! 1) = R_emailFormat \<and>
   check_rule host field_email (validations field_email ! 1) (JStr ''a@xcom'') Map.empty [] =
     Inr (Some (failure field_email (JStr ''Enter a valid email address (e.g., name@company.com)''))) \<and>
   \<not> email_shape ''a@xcom'' \<and>
   check_rule host field_email (validations field_email ! 1) (JStr ''a@x.com'') Map.empty [] = Inr None \<and>
   email_shape ''a@x.com''"
proof -
  let ?r = "validations field_email ! 1"
  have t: "rtype ?r = R_emailFormat" by (simp add: field_defs)
  have a: "check_rule host field_email ?r (JStr ''a@xcom'') Map.empty [] =
     Inr (Some (failure field_email (JStr ''Enter a valid email address (e.g., name@company.com)'')))"
    by (simp add: check_rule_def field_defs email_regex_def regex_test_def not_space_at_def is_ws_def msg_def)
  have b: "check_rule host field_email ?r (JStr ''a@x.com'') Map.empty [] = Inr None"
    by (simp add: check_rule_def field_defs email_regex_def regex_test_def not_space_at_def is_ws_def msg_def)
  have na: "\<not> email_shape ''a@xcom''"
    using emailFormat_strings_only [OF t, of host field_email "JStr ''a@xcom''" Map.empty "[]"] a
    by (auto split: if_splits)
  have nb: "email_shape ''a@x.com''"
    using emailFormat_strings_only [OF t, of host field_email "JStr ''a@x.com''" Map.empty "[]"] b
    by (auto split: if_splits)
  show ?thesis using t a b na nb by blast
qed

text \<open>
  Claim C8 as stated fails for a value that is not a string: \<^verbatim>\<open>true\<close> passes
  \<^verbatim>\<open>required\<close>, reaches the \<^verbatim>\<open>emailFormat\<close> rule and passes it.
\<close>

theorem emailFormat_any_type_counterexample:
  "check_rule host field_email (validations field_email ! 0) (JBool True) [''email'' \<mapsto> JBool True] [] = Inr None \<and>
   rtype (validations field_email ! 1) = R_emailFormat \<and>
   check_rule host field_email (validations field_email ! 1) (JBool True) [''email'' \<mapsto> JBool True] [] = Inr None \<and>
   validateField host field_email (JBool True) [''email'' \<mapsto> JBool True] [] =
     Inr \<lparr> valid = True, error = JNull, isSoft = False, res_blockSubmission = None \<rparr>"
  by (simp add: validateField_def check_rule_def field_defs)

subsection \<open>Numeric checks and uniqueness\<close>

lemma num_lt_NaN [simp]: "num_lt NaN x = False" "num_lt x NaN = False"
  by (cases x; simp)+

text \<open>
  Claim C6, amended.  For a string that \<^verbatim>\<open>Number\<close> turns into \<^verbatim>\<open>NaN\<close>, the numeric checks
  pass: a \<^verbatim>\<open>range\<close> rule and a \<^verbatim>\<open>minValue\<close> rule do not fail, the bounds of a
  sub-condition do not fail, and a \<^verbatim>\<open>conditional\<close> rule fails only through a
  \<^verbatim>\<open>requires\<close> check.  \<^verbatim>\<open>NaN\<close> compares false against every bound.
\<close>

theorem numeric_checks_pass_on_NaN:
  assumes "string_to_number s = NaN"
  shows "(rtype r = R_range \<longrightarrow> check_rule plat f r (JStr s) d h = Inr None) \<and>
         (rtype r = R_minValue \<longrightarrow> check_rule plat f r (JStr s) d h = Inr None) \<and>
         \<not> bounds_fail c (JStr s) \<and>
         (rtype r = R_conditional \<and> (\<forall>cs. conditions r = Some cs \<longrightarrow> (\<forall>c \<in> set cs. \<not> requires_fails c d))
            \<longrightarrow> check_rule plat f r (JStr s) d h = Inr None)"
proof -
  have b: "\<And>c. \<not> bounds_fail c (JStr s)"
    using assms by (simp add: bounds_fail_def num_gt_def split: option.splits)
  have ff: "\<And>cs. \<forall>c \<in> set cs. \<not> requires_fails c d \<Longrightarrow> first_failing cs (JStr s) d = None"
    subgoal for cs by (induction cs) (simp_all add: cond_fails_def b)
    done
  show ?thesis
    using assms b ff
    by (auto simp: check_rule_def Let_def num_gt_def split: option.splits)
qed

theorem numeric_checks_pass_on_NaN_witness:
  "string_to_number ''abc'' = NaN \<and>
   rtype (validations field_graduationYear ! 1) = R_range \<and>
   check_rule host field_graduationYear (validations field_graduationYear ! 1) (JStr ''abc'') Map.empty [] = Inr None \<and>
   rtype (validations field_screeningScore ! 2) = R_minValue \<and>
   check_rule host field_screeningScore (validations field_screeningScore ! 2) (JStr ''abc'') Map.empty [] = Inr None \<and>
   rtype (validations field_scoreValue ! 1) = R_conditional \<and>
   check_rule host field_scoreValue (validations field_scoreValue ! 1) (JStr ''abc'') score_record [] = Inr None"
proof -
  have n: "string_to_number ''abc'' = NaN" by (simp add: number_defs)
  have t1: "rtype (validations field_graduationYear ! 1) = R_range" by (simp add: field_defs)
  have t2: "rtype (validations field_screeningScore ! 2) = R_minValue" by (simp add: field_defs)
  have t3: "rtype (validations field_scoreValue ! 1) = R_conditional \<and>
      (\<forall>cs. conditions (validations field_scoreValue ! 1) = Some cs \<longrightarrow>
         (\<forall>c \<in> set cs. \<not> requires_fails c score_record))"
    by (auto simp: field_defs requires_fails_def)
  show ?thesis
    using n t1 t2 t3
      numeric_checks_pass_on_NaN [OF n, of "validations field_graduationYear ! 1" host field_graduationYear Map.empty "[]"]
      numeric_checks_pass_on_NaN [OF n, of "validations field_screeningScore ! 2" host field_screeningScore Map.empty "[]"]
      numeric_checks_pass_on_NaN [OF n, of "validations field_scoreValue ! 1" host field_scoreValue score_record "[]"]
    by blast
qed

text \<open>
  Claim C6 as stated fails: on \<^verbatim>\<open>graduationYear = "abc"\<close> the shipped \<^verbatim>\<open>range\<close> rule, with
  both bounds set, does not return an invalid verdict, and the field is valid.
\<close>

theorem range_fail_closed_counterexample:
  "string_to_number ''abc'' = NaN \<and>
   rtype (validations field_graduationYear ! 1) = R_range \<and>
   rmin (validations field_graduationYear ! 1) = Some (Fin 2015) \<and>
   rmax (validations field_graduationYear ! 1) = Some (Fin 2025) \<and>
   check_rule host field_graduationYear (validations field_graduationYear ! 1) (JStr ''abc'')
     [''graduationYear'' \<mapsto> JStr ''abc''] [] = Inr None \<and>
   validateField host field_graduationYear (JStr ''abc'') [''graduationYear'' \<mapsto> JStr ''abc''] [] =
     Inr \<lparr> valid = True, error = JNull, isSoft = True, res_blockSubmission = None \<rparr>"
  by (simp add: validateField_def check_rule_def field_defs number_defs num_gt_def)

lemma history_some_iff:
  "history_some h k v =
     (if \<exists>e \<in> set (takeWhile has_formData h). records_equal e k v then Inr True
      else if \<not> list_all has_formData h then Inl TypeError
      else Inr False)"
proof (induction h)
  case Nil
  then show ?case by simp
next
  case (Cons e es)
  show ?case
  proof (cases "entry_formData e")
    case None
    then have "\<not> has_formData e" by (simp add: has_formData_def)
    then show ?thesis using None by simp
  next
    case (Some fd)
    then have he: "has_formData e" by (simp add: has_formData_def)
    have re: "records_equal e k v = strict_eq (lookup fd k) v"
      using Some by (simp add: records_equal_def)
    show ?thesis
      using Cons.IH he re Some by simp
  qed
qed

text \<open>
  Claim C7, amended.  When a field carries a \<^verbatim>\<open>unique\<close> rule with \<^verbatim>\<open>checkStorage\<close> set
  and the rules before it pass, then on a history whose entries each carry their record
  \<^verbatim>\<open>validateField\<close> returns the failure of that rule exactly when the value is a string
  and some history entry records a strictly equal value under the field id; otherwise
  evaluation goes on with the later rules (and the result is valid when there are none).
  On any history the entries are read in order: a strictly equal entry counts when every
  entry before it carries a record, and the call throws when an entry without a record is
  reached first.
\<close>

theorem unique_rule_strings_only:
  assumes "validations f = pre @ r # post"
      and "\<forall>p \<in> set pre. check_rule plat f p v d h = Inr None"
      and "rtype r = R_unique" and "checkStorage r = Some True"
  shows "(list_all has_formData h \<longrightarrow>
            validateField plat f v d h =
              (if (\<exists>s. v = JStr s) \<and> (\<exists>e \<in> set h. records_equal e (fid f) v)
               then Inr (failure f (msg (message r)))
               else apply_rules plat f post v d h)) \<and>
         validateField plat f v d h =
           (if (\<exists>s. v = JStr s) \<and> (\<exists>e \<in> set (takeWhile has_formData h). records_equal e (fid f) v)
            then Inr (failure f (msg (message r)))
            else if (\<exists>s. v = JStr s) \<and> \<not> list_all has_formData h then Inl TypeError
            else apply_rules plat f post v d h)"
proof -
  have a: "validateField plat f v d h = apply_rules plat f (r # post) v d h"
    using assms(1,2) apply_rules_skip by (simp add: validateField_def)
  have c: "check_rule plat f r v d h =
      (if (\<exists>s. v = JStr s) \<and> (\<exists>e \<in> set (takeWhile has_formData h). records_equal e (fid f) v)
       then Inr (Some (failure f (msg (message r))))
       else if (\<exists>s. v = JStr s) \<and> \<not> list_all has_formData h then Inl TypeError
       else Inr None)"
    using assms(3,4) by (cases v) (simp_all add: check_rule_def history_some_iff)
  have g: "validateField plat f v d h =
           (if (\<exists>s. v = JStr s) \<and> (\<exists>e \<in> set (takeWhile has_formData h). records_equal e (fid f) v)
            then Inr (failure f (msg (message r)))
            else if (\<exists>s. v = JStr s) \<and> \<not> list_all has_formData h then Inl TypeError
            else apply_rules plat f post v d h)"
    using a c by simp
  have w: "validateField plat f v d h =
              (if (\<exists>s. v = JStr s) \<and> (\<exists>e \<in> set h. records_equal e (fid f) v)
               then Inr (failure f (msg (message r)))
               else apply_rules plat f post v d h)" if wf: "list_all has_formData h"
  proof -
    have tw: "takeWhile has_formData h = h" using wf by (simp add: list_all_iff)
    show ?thesis using g [unfolded tw] wf by simp
  qed
  show ?thesis
  proof (rule conjI)
    show "list_all has_formData h \<longrightarrow>
            validateField plat f v d h =
              (if (\<exists>s. v = JStr s) \<and> (\<exists>e \<in> set h. records_equal e (fid f) v)
               then Inr (failure f (msg (message r)))
               else apply_rules plat f post v d h)"
      using w by (rule impI)
    show "validateField plat f v d h =
           (if (\<exists>s. v = JStr s) \<and> (\<exists>e \<in> set (takeWhile has_formData h). records_equal e (fid f) v)
            then Inr (failure f (msg (message r)))
            else if (\<exists>s. v = JStr s) \<and> \<not> list_all has_formData h then Inl TypeError
            else apply_rules plat f post v d h)"
      by (rule g)
  qed
qed

theorem unique_rule_strings_only_witness:
  "list_all has_formData [prior_entry (JStr ''a@x.com'')] \<and>
   validateField host field_email (JStr ''a@x.com'') [''email'' \<mapsto> JStr ''a@x.com''] [prior_entry (JStr ''a@x.com'')] =
     Inr (failure field_email (JStr ''This email is already registered'')) \<and>
   validateField host field_email (JStr ''b@x.com'') [''email'' \<mapsto> JStr ''b@x.com''] [prior_entry (JStr ''a@x.com'')] =
     Inr \<lparr> valid = True, error = JNull, isSoft = False, res_blockSubmission = None \<rparr> \<and>
   validateField host field_email (JStr ''a@x.com'') [''email'' \<mapsto> JStr ''a@x.com'']
       [prior_entry (JStr ''a@x.com''), bare_entry] =
     Inr (failure field_email (JStr ''This email is already registered'')) \<and>
   validateField host field_email (JStr ''b@x.com'') [''email'' \<mapsto> JStr ''b@x.com'']
       [prior_entry (JStr ''a@x.com''), bare_entry] = Inl TypeError"
proof -
  let ?r1 = "validations field_email ! 0" and ?r2 = "validations field_email ! 1"
  let ?u = "validations field_email ! 2"
  let ?h = "[prior_entry (JStr ''a@x.com'')]"
  let ?g = "[prior_entry (JStr ''a@x.com''), bare_entry]"
  have v: "validations field_email = [?r1, ?r2] @ ?u # []" by (simp add: field_defs)
  have u: "rtype ?u = R_unique" "checkStorage ?u = Some True" by (simp_all add: field_defs)
  have w: "list_all has_formData ?h" by (simp add: has_formData_def prior_entry_def)
  have pa: "\<And>hh. \<forall>p \<in> set [?r1, ?r2].
      check_rule host field_email p (JStr ''a@x.com'') [''email'' \<mapsto> JStr ''a@x.com''] hh = Inr None"
    by (simp add: check_rule_def field_defs email_regex_def regex_test_def not_space_at_def is_ws_def)
  have pb: "\<And>hh. \<forall>p \<in> set [?r1, ?r2].
      check_rule host field_email p (JStr ''b@x.com'') [''email'' \<mapsto> JStr ''b@x.com''] hh = Inr None"
    by (simp add: check_rule_def field_defs email_regex_def regex_test_def not_space_at_def is_ws_def)
  have a: "validateField host field_email (JStr ''a@x.com'') [''email'' \<mapsto> JStr ''a@x.com''] ?h =
     Inr (failure field_email (JStr ''This email is already registered''))"
    using unique_rule_strings_only [OF v pa u, of ?h] w
    by (simp add: prior_entry_def lookup_def field_defs msg_def records_equal_def has_formData_def)
  have b: "validateField host field_email (JStr ''b@x.com'') [''email'' \<mapsto> JStr ''b@x.com''] ?h =
     Inr \<lparr> valid = True, error = JNull, isSoft = False, res_blockSubmission = None \<rparr>"
    using unique_rule_strings_only [OF v pb u, of ?h] w
    by (simp add: prior_entry_def lookup_def field_defs msg_def records_equal_def has_formData_def)
  have c: "validateField host field_email (JStr ''a@x.com'') [''email'' \<mapsto> JStr ''a@x.com''] ?g =
     Inr (failure field_email (JStr ''This email is already registered''))"
    using unique_rule_strings_only [OF v pa u, of ?g]
    by (simp add: prior_entry_def bare_entry_def lookup_def field_defs msg_def records_equal_def
        has_formData_def)
  have e: "validateField host field_email (JStr ''b@x.com'') [''email'' \<mapsto> JStr ''b@x.com''] ?g =
     Inl TypeError"
    using unique_rule_strings_only [OF v pb u, of ?g]
    by (simp add: prior_entry_def bare_entry_def lookup_def field_defs msg_def records_equal_def
        has_formData_def)
  show ?thesis using w a b c e by blast
qed

text \<open>
  Claim C7 as stated fails for a value that is not a string: the number 5 passes the
  earlier rules of the e-mail field, a history entry records the strictly equal value 5,
  and the field is valid.
\<close>

theorem unique_non_string_counterexample:
  "check_rule host field_email (validations field_email ! 0) (JNum (Fin 5)) [''email'' \<mapsto> JNum (Fin 5)]
     [prior_entry (JNum (Fin 5))] = Inr None \<and>
   check_rule host field_email (validations field_email ! 1) (JNum (Fin 5)) [''email'' \<mapsto> JNum (Fin 5)]
     [prior_entry (JNum (Fin 5))] = Inr None \<and>
   rtype (validations field_email ! 2) = R_unique \<and>
   checkStorage (validations field_email ! 2) = Some True \<and>
   records_equal (prior_entry (JNum (Fin 5))) (fid field_email) (JNum (Fin 5)) \<and>
   validateField host field_email (JNum (Fin 5)) [''email'' \<mapsto> JNum (Fin 5)] [prior_entry (JNum (Fin 5))] =
     Inr \<lparr> valid = True, error = JNull, isSoft = False, res_blockSubmission = None \<rparr>"
  by (simp add: validateField_def check_rule_def field_defs prior_entry_def lookup_def
      records_equal_def)

subsection \<open>Results and exceptions\<close>









subsection \<open>The submission gate\<close>

lemma find_by_fid:
  "distinct (map fid fs) \<Longrightarrow> f \<in> set fs \<Longrightarrow> find (\<lambda>g. fid g = fid f) fs = Some f"
  by (induction fs) (auto simp: rev_image_eqI)

lemma find_fid_SomeD: "find (\<lambda>g. fid g = i) fs = Some f \<Longrightarrow> f \<in> set fs \<and> fid f = i"
  by (induction fs) (auto split: if_splits)

lemma blocks_iff:
  assumes "find (\<lambda>g. fid g = i) (schema_fields cfg) = Some f"
      and "res_blockSubmission r = Some True \<longrightarrow> \<not> valid r"
  shows "blocks cfg st (i, r) \<longleftrightarrow>
     \<not> valid r \<and>
     (category f = Strict \<or> res_blockSubmission r = Some True \<or>
      (category f = Soft \<and>
         ((\<nexists>exc. map_of (exceptions st) i = Some exc \<and> active exc) \<or>
          (\<exists>exc. map_of (exceptions st) i = Some exc \<and> active exc \<and>
                 \<not> rat_valid (checkRationale f (rationale exc))))))"
  using assms
  by (cases "category f"; cases "map_of (exceptions st) i") (auto simp: blocks_def)

lemma hasStrictErrors_spec:
  assumes d: "distinct (map fid (schema_fields cfg))"
      and b: "\<forall>(i, r) \<in> set errs. res_blockSubmission r = Some True \<longrightarrow> \<not> valid r"
  shows "hasStrictErrors cfg errs st = spec_hasBlockingFailure cfg errs st"
proof
  assume "hasStrictErrors cfg errs st"
  then obtain i r where ir: "(i, r) \<in> set errs" "blocks cfg st (i, r)"
    by (auto simp: hasStrictErrors_def list_ex_iff)
  then obtain f where f: "find (\<lambda>g. fid g = i) (schema_fields cfg) = Some f"
    by (cases "find (\<lambda>g. fid g = i) (schema_fields cfg)") (auto simp: blocks_def)
  have fl: "f \<in> set (schema_fields cfg)" "fid f = i" using find_fid_SomeD [OF f] by simp_all
  have "res_blockSubmission r = Some True \<longrightarrow> \<not> valid r" using b ir by auto
  from blocks_iff [OF f this, of st] ir(2) fl ir(1)
  show "spec_hasBlockingFailure cfg errs st"
    unfolding spec_hasBlockingFailure_def by blast
next
  assume "spec_hasBlockingFailure cfg errs st"
  then obtain f r where fr: "f \<in> set (schema_fields cfg)" "(fid f, r) \<in> set errs" "\<not> valid r"
      "category f = Strict \<or> res_blockSubmission r = Some True \<or>
         (category f = Soft \<and>
            ((\<nexists>exc. map_of (exceptions st) (fid f) = Some exc \<and> active exc) \<or>
             (\<exists>exc. map_of (exceptions st) (fid f) = Some exc \<and> active exc \<and>
                    \<not> rat_valid (checkRationale f (rationale exc)))))"
    unfolding spec_hasBlockingFailure_def by blast
  have f: "find (\<lambda>g. fid g = fid f) (schema_fields cfg) = Some f"
    using find_by_fid [OF d fr(1)] .
  have "res_blockSubmission r = Some True \<longrightarrow> \<not> valid r" using fr(3) by simp
  from blocks_iff [OF f this, of st] fr(3,4) have "blocks cfg st (fid f, r)" by blast
  with fr(2) show "hasStrictErrors cfg errs st"
    by (auto simp: hasStrictErrors_def list_ex_iff)
qed

lemma missingRequired_spec: "missingRequired cfg st = spec_missingRequired cfg st"
  by (auto simp: missingRequired_def spec_missingRequired_def is_missing_def list_ex_iff Let_def)

text \<open>
  Claim C1.  For every schema whose field ids are distinct, every map of verdicts in which
  only invalid verdicts carry \<^verbatim>\<open>blockSubmission\<close> (the validation effect stores invalid
  verdicts only, see \<open>validationErrors_flagged_invalid\<close>) and every state,
  \<^verbatim>\<open>canSubmit\<close> is the conjunction of: no blocking failure, and no required field
  missing.  A blocking failure is an invalid verdict of a schema field that is strict, or
  carries \<^verbatim>\<open>blockSubmission\<close>, or is soft without an active exception or with an active
  exception whose rationale fails \<^verbatim>\<open>checkRationale\<close>.  A required field is missing when it
  has a \<^verbatim>\<open>required\<close> rule and holds \<^verbatim>\<open>undefined\<close>, \<^verbatim>\<open>null\<close> or the empty string.
\<close>

theorem canSubmit_spec:
  assumes "distinct (map fid (schema_fields cfg))"
      and "\<forall>(i, r) \<in> set errs. res_blockSubmission r = Some True \<longrightarrow> \<not> valid r"
  shows "canSubmit cfg errs st \<longleftrightarrow>
           \<not> spec_hasBlockingFailure cfg errs st \<and> \<not> spec_missingRequired cfg st"
  unfolding canSubmit_def hasStrictErrors_spec [OF assms] missingRequired_spec ..

text \<open>What the validation effect leaves in \<^verbatim>\<open>validationErrors\<close>.\<close>

lemma set_assign: "set (assign k v xs) \<subseteq> insert (k, v) (set xs)"
  by (induction xs) (auto split: if_splits)

lemma assign_mem: "(k, v) \<in> set (assign k v xs)"
  by (induction xs) (auto split: if_splits)

lemma assign_other: "(k', v') \<in> set xs \<Longrightarrow> k' \<noteq> k \<Longrightarrow> (k', v') \<in> set (assign k v xs)"
  by (induction xs) (auto split: if_splits)

lemma collect_errors_sound:
  assumes "collect_errors plat fs fd h e0 = Inr errs" and "(i, r) \<in> set errs"
  shows "(i, r) \<in> set e0 \<or>
         (\<exists>f \<in> set fs. i = fid f \<and> validateField plat f (lookup fd (fid f)) fd h = Inr r \<and> \<not> valid r)"
  using assms
proof (induction fs arbitrary: e0)
  case Nil
  then show ?case by simp
next
  case (Cons f fs)
  then obtain res where res: "validateField plat f (lookup fd (fid f)) fd h = Inr res"
    by (cases "validateField plat f (lookup fd (fid f)) fd h") auto
  let ?e = "if \<not> valid res then assign (fid f) res e0 else e0"
  have c: "collect_errors plat fs fd h ?e = Inr errs" using Cons.prems(1) res by simp
  from Cons.IH [OF c Cons.prems(2)] consider "(i, r) \<in> set ?e"
    | "\<exists>g \<in> set fs. i = fid g \<and> validateField plat g (lookup fd (fid g)) fd h = Inr r \<and> \<not> valid r"
    by blast
  then show ?case
  proof cases
    case 1
    then have "(i, r) \<in> set e0 \<or> ((i, r) = (fid f, res) \<and> \<not> valid res)"
      using set_assign [of "fid f" res e0] by (auto split: if_splits)
    with res show ?thesis by auto
  next
    case 2
    then show ?thesis by auto
  qed
qed

lemma collect_errors_keeps:
  assumes "collect_errors plat fs fd h e0 = Inr errs" and "(k, v) \<in> set e0" and "k \<notin> fid ` set fs"
  shows "(k, v) \<in> set errs"
  using assms
proof (induction fs arbitrary: e0)
  case Nil
  then show ?case by simp
next
  case (Cons f fs)
  then obtain res where res: "validateField plat f (lookup fd (fid f)) fd h = Inr res"
    by (cases "validateField plat f (lookup fd (fid f)) fd h") auto
  let ?e = "if \<not> valid res then assign (fid f) res e0 else e0"
  have c: "collect_errors plat fs fd h ?e = Inr errs" using Cons.prems(1) res by simp
  have "(k, v) \<in> set ?e" using Cons.prems(2,3) by (auto intro: assign_other)
  moreover have "k \<notin> fid ` set fs" using Cons.prems(3) by auto
  ultimately show ?case using Cons.IH [OF c] by blast
qed

lemma collect_errors_complete:
  assumes "collect_errors plat fs fd h e0 = Inr errs" and "distinct (map fid fs)" and "f \<in> set fs"
      and "validateField plat f (lookup fd (fid f)) fd h = Inr r" and "\<not> valid r"
  shows "(fid f, r) \<in> set errs"
  using assms
proof (induction fs arbitrary: e0)
  case Nil
  then show ?case by simp
next
  case (Cons g fs)
  then obtain res where res: "validateField plat g (lookup fd (fid g)) fd h = Inr res"
    by (cases "validateField plat g (lookup fd (fid g)) fd h") auto
  let ?e = "if \<not> valid res then assign (fid g) res e0 else e0"
  have c: "collect_errors plat fs fd h ?e = Inr errs" using Cons.prems(1) res by simp
  show ?case
  proof (cases "f = g")
    case True
    then have "res = r" using res Cons.prems(4) by simp
    then have "(fid f, r) \<in> set ?e" using True Cons.prems(5) assign_mem by simp
    moreover have "fid f \<notin> fid ` set fs" using True Cons.prems(2) by auto
    ultimately show ?thesis using collect_errors_keeps [OF c] by blast
  next
    case False
    then have "f \<in> set fs" using Cons.prems(3) by simp
    moreover have "distinct (map fid fs)" using Cons.prems(2) by simp
    ultimately show ?thesis using Cons.IH [OF c] Cons.prems(4,5) by blast
  qed
qed

lemma collect_errors_total:
  assumes "\<forall>f \<in> set fs. \<exists>r. validateField plat f (lookup fd (fid f)) fd h = Inr r"
  shows "\<exists>errs. collect_errors plat fs fd h e0 = Inr errs"
  using assms
proof (induction fs arbitrary: e0)
  case Nil
  then show ?case by simp
next
  case (Cons f fs)
  then obtain res where res: "validateField plat f (lookup fd (fid f)) fd h = Inr res" by auto
  then show ?case using Cons by simp
qed

lemma validationErrors_flagged_invalid:
  assumes "validationErrors plat cfg st = Inr errs"
  shows "\<forall>(i, r) \<in> set errs. \<not> valid r"
  using collect_errors_sound [of plat "schema_fields cfg" "formData st" "auditLog st" "[]" errs] assms
  by (fastforce simp: validationErrors_def)

lemma validationErrors_exceptions:
  "validationErrors plat cfg (st\<lparr> exceptions := excs \<rparr>) = validationErrors plat cfg st"
  by (simp add: validationErrors_def)

lemma flag_only_from_notEquals:
  assumes "check_rule plat f r v d h = Inr (Some res)" and "rtype r \<noteq> R_notEquals"
  shows "res_blockSubmission res = None"
  using assms
  by (cases "rtype r")
     (auto simp: check_rule_def failure_def Let_def
           split: if_splits jsval.splits option.splits sum.splits)

text \<open>
  Claim C3, amended.  For every schema with distinct field ids and every record in which a
  \<^verbatim>\<open>notEquals\<close> rule carrying the \<^verbatim>\<open>blockSubmission\<close> flag fails (the rules before it
  in its field pass and the value strictly equals the forbidden value), \<^verbatim>\<open>canSubmit\<close> is
  false whatever the exception map \<open>excs\<close> is, for a strict field and for a soft one.  The
  verdicts do not depend on the exception map.
\<close>

theorem blockSubmission_overrides:
  assumes "distinct (map fid (schema_fields cfg))" and "f \<in> set (schema_fields cfg)"
      and "validations f = pre @ r # post"
      and "\<forall>p \<in> set pre.
             check_rule plat f p (lookup (formData st) (fid f)) (formData st) (auditLog st) = Inr None"
      and "rtype r = R_notEquals" and "blockSubmission r = Some True"
      and "strict_eq (lookup (formData st) (fid f)) (rvalue r)"
      and "validationErrors plat cfg st = Inr errs"
  shows "validationErrors plat cfg (st\<lparr> exceptions := excs \<rparr>) = Inr errs \<and>
         \<not> canSubmit cfg errs (st\<lparr> exceptions := excs \<rparr>)"
proof -
  let ?v = "lookup (formData st) (fid f)"
  let ?res = "(failure f (msg (message r)))\<lparr> res_blockSubmission := Some True \<rparr>"
  have c: "check_rule plat f r ?v (formData st) (auditLog st) = Inr (Some ?res)"
    using assms(5,6,7) by (simp add: check_rule_def)
  have "apply_rules plat f (pre @ r # post) ?v (formData st) (auditLog st) =
        apply_rules plat f (r # post) ?v (formData st) (auditLog st)"
    using assms(4) apply_rules_skip by blast
  then have v: "validateField plat f ?v (formData st) (auditLog st) = Inr ?res"
    using c assms(3) by (simp add: validateField_def)
  have nv: "\<not> valid ?res" by (simp add: failure_def)
  have m: "(fid f, ?res) \<in> set errs"
    using collect_errors_complete [OF _ assms(1,2) v nv] assms(8)
    by (simp add: validationErrors_def)
  let ?st = "st\<lparr> exceptions := excs \<rparr>"
  have fnd: "find (\<lambda>g. fid g = fid f) (schema_fields cfg) = Some f"
    using find_by_fid [OF assms(1,2)] .
  have "blocks cfg ?st (fid f, ?res)"
    using fnd by (simp add: blocks_def failure_def)
  with m have "hasStrictErrors cfg errs ?st"
    by (auto simp: hasStrictErrors_def list_ex_iff)
  then show ?thesis
    using assms(8) by (simp add: canSubmit_def validationErrors_exceptions)
qed

text \<open>
  Claim C10.  A soft field holds the value \<^verbatim>\<open>false\<close>, its \<^verbatim>\<open>required\<close> rule is the first
  of its rules to fail, and an active exception with a rationale passing
  \<^verbatim>\<open>checkRationale\<close> is recorded for it.  Every other field is not missing and has a
  verdict that is valid or does not block.  Then the \<^verbatim>\<open>required\<close> rule reports its
  failure, the field does not count as missing, the validation effect returns, and
  \<^verbatim>\<open>canSubmit\<close> is true.
\<close>

theorem false_is_not_missing:
  assumes "distinct (map fid (schema_fields cfg))" and "f \<in> set (schema_fields cfg)"
      and "category f = Soft"
      and "validations f = pre @ r0 # rest" and "rtype r0 = R_required"
      and "\<forall>p \<in> set pre. check_rule plat f p (JBool False) (formData st) (auditLog st) = Inr None"
      and "lookup (formData st) (fid f) = JBool False"
      and "map_of (exceptions st) (fid f) = Some exc" and "active exc"
      and "rat_valid (checkRationale f (rationale exc))"
      and "\<forall>g \<in> set (schema_fields cfg). fid g \<noteq> fid f \<longrightarrow>
             \<not> is_missing st g \<and>
             (\<exists>r. validateField plat g (lookup (formData st) (fid g)) (formData st) (auditLog st) = Inr r \<and>
                  (valid r \<or> \<not> blocks cfg st (fid g, r)))"
  shows "validateField plat f (JBool False) (formData st) (auditLog st) = Inr (failure f (msg (message r0))) \<and>
         \<not> is_missing st f \<and>
         (\<exists>errs. validationErrors plat cfg st = Inr errs \<and> canSubmit cfg errs st)"
proof -
  let ?res = "failure f (msg (message r0))"
  have c: "check_rule plat f r0 (JBool False) (formData st) (auditLog st) = Inr (Some ?res)"
    using assms(5) by (simp add: check_rule_def)
  have "apply_rules plat f (pre @ r0 # rest) (JBool False) (formData st) (auditLog st) =
        apply_rules plat f (r0 # rest) (JBool False) (formData st) (auditLog st)"
    using assms(6) apply_rules_skip by blast
  then have v: "validateField plat f (JBool False) (formData st) (auditLog st) = Inr ?res"
    using c assms(4) by (simp add: validateField_def)
  have nm: "\<not> is_missing st f" using assms(7) by (simp add: is_missing_def Let_def)
  have tot: "\<forall>g \<in> set (schema_fields cfg).
      \<exists>r. validateField plat g (lookup (formData st) (fid g)) (formData st) (auditLog st) = Inr r"
  proof
    fix g assume g: "g \<in> set (schema_fields cfg)"
    show "\<exists>r. validateField plat g (lookup (formData st) (fid g)) (formData st) (auditLog st) = Inr r"
    proof (cases "fid g = fid f")
      case True
      then have "g = f" using assms(1,2) g by (simp add: distinct_map inj_on_def)
      then show ?thesis using v assms(7) by simp
    next
      case False
      then show ?thesis using assms(11) g by blast
    qed
  qed
  then obtain errs where errs: "collect_errors plat (schema_fields cfg) (formData st) (auditLog st) [] = Inr errs"
    using collect_errors_total by blast
  have fnd: "find (\<lambda>g. fid g = fid f) (schema_fields cfg) = Some f"
    using find_by_fid [OF assms(1,2)] .
  have nb: "\<not> blocks cfg st (fid f, ?res)"
    using fnd assms(3,8,9,10) by (simp add: blocks_def failure_def)
  have "\<not> blocks cfg st e" if e: "e \<in> set errs" for e
  proof -
    obtain i r where ir: "e = (i, r)" by (cases e)
    from collect_errors_sound [OF errs] e ir
    obtain g where g: "g \<in> set (schema_fields cfg)" "i = fid g"
        "validateField plat g (lookup (formData st) (fid g)) (formData st) (auditLog st) = Inr r" "\<not> valid r"
      by auto
    show ?thesis
    proof (cases "fid g = fid f")
      case True
      then have "g = f" using assms(1,2) g(1) by (simp add: distinct_map inj_on_def)
      then have "r = ?res" using g(3) v assms(7) by simp
      then show ?thesis using nb ir g(2) True by simp
    next
      case False
      then show ?thesis using assms(11) g ir by auto
    qed
  qed
  then have nh: "\<not> hasStrictErrors cfg errs st"
    by (auto simp: hasStrictErrors_def list_ex_iff)
  have "\<not> is_missing st g" if "g \<in> set (schema_fields cfg)" for g
  proof (cases "fid g = fid f")
    case True
    then have "g = f" using assms(1,2) that by (simp add: distinct_map inj_on_def)
    then show ?thesis using nm by simp
  next
    case False
    then show ?thesis using assms(11) that by blast
  qed
  then have "\<not> missingRequired cfg st" by (auto simp: missingRequired_def list_ex_iff)
  with nh errs have "validationErrors plat cfg st = Inr errs \<and> canSubmit cfg errs st"
    by (simp add: validationErrors_def canSubmit_def)
  then show ?thesis using v nm by blast
qed

subsection \<open>The gate on the shipped schema\<close>

lemmas regex_defs = host_def RegExp_test_def compile_regex_def atom_def quantifier_def braces_def
  escape_class_def regex_test_def email_regex_def digit_regex_def any_run_def not_space_at_def

lemmas eval_defs = validateField_def check_rule_def field_defs number_defs regex_defs lookup_def
  failure_def msg_def msg_or_def cond_fails_def cond_applies_def requires_fails_def
  bounds_fail_def array_includes_def num_gt_def

lemma waiver_errors:
  "validationErrors host rulesConfig waiver_state =
     Inr [(''dob'', failure field_dob (JStr ''Date of birth is required''))]"
  by (simp add: validationErrors_def rulesConfig_def waiver_state_def complete_record_def eval_defs)

lemma rejected_errors:
  "validationErrors host rulesConfig rejected_state =
     Inr [(''dob'', failure field_dob (JStr ''Date of birth is required'')),
          (''interviewStatus'', (failure field_interviewStatus JUndefined)\<lparr> res_blockSubmission := Some True \<rparr>)]"
  by (simp add: validationErrors_def rulesConfig_def rejected_state_def complete_record_def eval_defs)


theorem false_is_not_missing_witness:
  "lookup (formData waiver_state) (fid field_dob) = JBool False \<and>
   category field_dob = Soft \<and>
   validateField host field_dob (JBool False) (formData waiver_state) (auditLog waiver_state) =
     Inr (failure field_dob (JStr ''Date of birth is required'')) \<and>
   \<not> is_missing waiver_state field_dob \<and>
   (\<exists>errs. validationErrors host rulesConfig waiver_state = Inr errs \<and>
           canSubmit rulesConfig errs waiver_state)"
proof -
  let ?exc = "\<lparr> active = True, rationale = ''Age waiver approved by the director'' \<rparr>"
  let ?req = "rule R_required (Some ''Date of birth is required'')"
  let ?rest = "[(rule R_ageRange (Some ''Candidate must be 18-35 years old''))
                  \<lparr> rmin := Some (Fin 18), rmax := Some (Fin 35) \<rparr>]"
  have h1: "distinct (map fid (schema_fields rulesConfig))"
    by (simp add: rulesConfig_def field_defs)
  have h2: "field_dob \<in> set (schema_fields rulesConfig)" by (simp add: rulesConfig_def)
  have h3: "category field_dob = Soft" by (simp add: field_defs)
  have h4: "validations field_dob = [] @ ?req # ?rest" by (simp add: field_defs)
  have h5: "rtype ?req = R_required" by (simp add: rule_def)
  have h6: "\<forall>p \<in> set []. check_rule host field_dob p (JBool False) (formData waiver_state)
      (auditLog waiver_state) = Inr None" by simp
  have h7: "lookup (formData waiver_state) (fid field_dob) = JBool False"
    by (simp add: waiver_state_def complete_record_def lookup_def field_defs)
  have h8: "map_of (exceptions waiver_state) (fid field_dob) = Some ?exc"
    by (simp add: waiver_state_def field_defs)
  have h9: "active ?exc" by simp
  have h10: "rat_valid (checkRationale field_dob (rationale ?exc))"
    by (simp add: rationale_defs)
  have h11: "\<forall>g \<in> set (schema_fields rulesConfig). fid g \<noteq> fid field_dob \<longrightarrow>
      \<not> is_missing waiver_state g \<and>
      (\<exists>r. validateField host g (lookup (formData waiver_state) (fid g)) (formData waiver_state)
              (auditLog waiver_state) = Inr r \<and>
           (valid r \<or> \<not> blocks rulesConfig waiver_state (fid g, r)))"
    by (simp add: rulesConfig_def waiver_state_def complete_record_def is_missing_def eval_defs)
  show ?thesis
    using false_is_not_missing [OF h1 h2 h3 h4 h5 h6 h7 h8 h9 h10 h11] h3 h7
    by (simp add: rule_def msg_def)
qed

theorem blockSubmission_overrides_witness:
  "category field_soft_status = Soft \<and>
   map_of rejected_exceptions ''interviewStatus'' =
     Some \<lparr> active = True, rationale = ''Special case approved by the dean'' \<rparr> \<and>
   rat_valid (checkRationale field_soft_status ''Special case approved by the dean'') \<and>
   lookup (formData soft_rejected_state) ''interviewStatus'' = JStr ''Rejected'' \<and>
   validationErrors host soft_status_config (soft_rejected_state\<lparr> exceptions := rejected_exceptions \<rparr>) =
     Inr [(''interviewStatus'',
           (failure field_soft_status JUndefined)\<lparr> res_blockSubmission := Some True \<rparr>)] \<and>
   \<not> canSubmit soft_status_config
       [(''interviewStatus'',
         (failure field_soft_status JUndefined)\<lparr> res_blockSubmission := Some True \<rparr>)]
       (soft_rejected_state\<lparr> exceptions := rejected_exceptions \<rparr>) \<and>
   canSubmit soft_status_config
       [(''interviewStatus'', failure field_soft_status JUndefined)]
       (soft_rejected_state\<lparr> exceptions := rejected_exceptions \<rparr>) \<and>
   rat_valid (checkRationale field_interviewStatus ''Special case approved by the dean'') \<and>
   lookup (formData rejected_state) ''interviewStatus'' = JStr ''Rejected'' \<and>
   validationErrors host rulesConfig (rejected_state\<lparr> exceptions := rejected_exceptions \<rparr>) =
     Inr [(''dob'', failure field_dob (JStr ''Date of birth is required'')),
          (''interviewStatus'',
           (failure field_interviewStatus JUndefined)\<lparr> res_blockSubmission := Some True \<rparr>)] \<and>
   \<not> canSubmit rulesConfig
       [(''dob'', failure field_dob (JStr ''Date of birth is required'')),
        (''interviewStatus'',
         (failure field_interviewStatus JUndefined)\<lparr> res_blockSubmission := Some True \<rparr>)]
       (rejected_state\<lparr> exceptions := rejected_exceptions \<rparr>)"
proof -
  let ?req = "rule R_required (Some ''Interview status is required'')"
  let ?ne = "(rule R_notEquals None)
           \<lparr> rvalue := JStr ''Rejected'', blockSubmission := Some True,
             bannerMessage := Some ''Rejected candidates cannot be enrolled'' \<rparr>"
  have t: "rtype ?ne = R_notEquals" "blockSubmission ?ne = Some True" by (simp_all add: rule_def)
  have e: "map_of rejected_exceptions ''interviewStatus'' =
     Some \<lparr> active = True, rationale = ''Special case approved by the dean'' \<rparr>"
    by (simp add: rejected_exceptions_def)
  have s0: "category field_soft_status = Soft" by (simp add: field_soft_status_def soft_field_def)
  have s1: "distinct (map fid (schema_fields soft_status_config))"
    by (simp add: soft_status_config_def)
  have s2: "field_soft_status \<in> set (schema_fields soft_status_config)"
    by (simp add: soft_status_config_def)
  have s3: "validations field_soft_status = [?req] @ ?ne # []"
    by (simp add: field_soft_status_def soft_field_def)
  have sv: "lookup (formData soft_rejected_state) (fid field_soft_status) = JStr ''Rejected''"
    by (simp add: soft_rejected_state_def lookup_def field_soft_status_def soft_field_def)
  have s4: "\<forall>p \<in> set [?req]. check_rule host field_soft_status p
      (lookup (formData soft_rejected_state) (fid field_soft_status)) (formData soft_rejected_state)
      (auditLog soft_rejected_state) = Inr None"
    by (simp add: sv check_rule_def rule_def)
  have s7: "strict_eq (lookup (formData soft_rejected_state) (fid field_soft_status)) (rvalue ?ne)"
    by (simp add: sv rule_def)
  have s8: "validationErrors host soft_status_config soft_rejected_state =
     Inr [(''interviewStatus'',
           (failure field_soft_status JUndefined)\<lparr> res_blockSubmission := Some True \<rparr>)]"
    by (simp add: validationErrors_def soft_status_config_def soft_rejected_state_def
        field_soft_status_def soft_field_def rule_def validateField_def check_rule_def lookup_def
        failure_def msg_def)
  have sc: "rat_valid (checkRationale field_soft_status ''Special case approved by the dean'')"
    by (simp add: checkRationale_def field_soft_status_def soft_field_def num_or_def str_length_def
        toLowerCase_def toLowerCase_char_def)
  have sp: "canSubmit soft_status_config
       [(''interviewStatus'', failure field_soft_status JUndefined)]
       (soft_rejected_state\<lparr> exceptions := rejected_exceptions \<rparr>)"
    by (simp add: canSubmit_def hasStrictErrors_def blocks_def missingRequired_def is_missing_def
        soft_status_config_def soft_rejected_state_def rejected_exceptions_def failure_def
        lookup_def field_soft_status_def soft_field_def rule_def checkRationale_def num_or_def
        str_length_def toLowerCase_def toLowerCase_char_def)
  have h1: "distinct (map fid (schema_fields rulesConfig))"
    by (simp add: rulesConfig_def field_defs)
  have h2: "field_interviewStatus \<in> set (schema_fields rulesConfig)" by (simp add: rulesConfig_def)
  have h3: "validations field_interviewStatus = [?req] @ ?ne # []" by (simp add: field_defs)
  have v: "lookup (formData rejected_state) (fid field_interviewStatus) = JStr ''Rejected''"
    by (simp add: rejected_state_def lookup_def field_defs)
  have h4: "\<forall>p \<in> set [?req]. check_rule host field_interviewStatus p
      (lookup (formData rejected_state) (fid field_interviewStatus)) (formData rejected_state)
      (auditLog rejected_state) = Inr None"
    by (simp add: v check_rule_def rule_def)
  have h7: "strict_eq (lookup (formData rejected_state) (fid field_interviewStatus)) (rvalue ?ne)"
    by (simp add: v rule_def)
  have c: "rat_valid (checkRationale field_interviewStatus ''Special case approved by the dean'')"
    by (simp add: checkRationale_def field_defs num_or_def str_length_def)
  show ?thesis
    using blockSubmission_overrides [OF s1 s2 s3 s4 t s7 s8, of rejected_exceptions]
      blockSubmission_overrides [OF h1 h2 h3 h4 t h7 rejected_errors, of rejected_exceptions]
      s0 sv v e c sc sp
    by (simp add: field_defs field_soft_status_def soft_field_def)
qed

text \<open>
  Claim C3 as stated fails for a rule of another kind: a \<^verbatim>\<open>minValue\<close> rule that carries
  \<^verbatim>\<open>blockSubmission\<close> fails in a soft field, the verdict does not carry the flag, and with
  an active exception and a passing rationale \<^verbatim>\<open>canSubmit\<close> is true.
\<close>

theorem blockSubmission_other_kind_counterexample:
  "category field_flagged_min = Soft \<and>
   blockSubmission (validations field_flagged_min ! 0) = Some True \<and>
   check_rule host field_flagged_min (validations field_flagged_min ! 0) (JStr ''10'')
       (formData low_score_state) (auditLog low_score_state) =
     Inr (Some (failure field_flagged_min (JStr ''Minimum qualifying score is 40/100''))) \<and>
   validationErrors host flagged_config low_score_state =
     Inr [(''screeningScore'', failure field_flagged_min (JStr ''Minimum qualifying score is 40/100''))] \<and>
   canSubmit flagged_config
     [(''screeningScore'', failure field_flagged_min (JStr ''Minimum qualifying score is 40/100''))]
     low_score_state"
  by (simp add: validationErrors_def flagged_config_def low_score_state_def field_flagged_min_def
      eval_defs canSubmit_def hasStrictErrors_def blocks_def missingRequired_def is_missing_def
      checkRationale_def str_length_def toLowerCase_def toLowerCase_char_def)

theorem canSubmit_spec_witness:
  "distinct (map fid (schema_fields rulesConfig)) \<and>
   validationErrors host rulesConfig waiver_state =
     Inr [(''dob'', failure field_dob (JStr ''Date of birth is required''))] \<and>
   canSubmit rulesConfig [(''dob'', failure field_dob (JStr ''Date of birth is required''))] waiver_state \<and>
   \<not> spec_hasBlockingFailure rulesConfig
       [(''dob'', failure field_dob (JStr ''Date of birth is required''))] waiver_state \<and>
   \<not> spec_missingRequired rulesConfig waiver_state \<and>
   \<not> canSubmit rulesConfig [(''dob'', failure field_dob (JStr ''Date of birth is required''))]
       (waiver_state\<lparr> exceptions := [] \<rparr>) \<and>
   spec_hasBlockingFailure rulesConfig
       [(''dob'', failure field_dob (JStr ''Date of birth is required''))]
       (waiver_state\<lparr> exceptions := [] \<rparr>) \<and>
   \<not> valid ((failure field_interviewStatus JUndefined)\<lparr> res_blockSubmission := Some True \<rparr>) \<and>
   \<not> canSubmit rulesConfig
       [(''dob'', failure field_dob (JStr ''Date of birth is required'')),
        (''interviewStatus'',
         (failure field_interviewStatus JUndefined)\<lparr> res_blockSubmission := Some True \<rparr>)]
       (rejected_state\<lparr> exceptions := rejected_exceptions \<rparr>) \<and>
   spec_hasBlockingFailure rulesConfig
       [(''dob'', failure field_dob (JStr ''Date of birth is required'')),
        (''interviewStatus'',
         (failure field_interviewStatus JUndefined)\<lparr> res_blockSubmission := Some True \<rparr>)]
       (rejected_state\<lparr> exceptions := rejected_exceptions \<rparr>)"
proof -
  let ?errs = "[(''dob'', failure field_dob (JStr ''Date of birth is required''))]"
  let ?flagged = "(failure field_interviewStatus JUndefined)\<lparr> res_blockSubmission := Some True \<rparr>"
  let ?errs' = "[(''dob'', failure field_dob (JStr ''Date of birth is required'')),
                 (''interviewStatus'', ?flagged)]"
  let ?st' = "rejected_state\<lparr> exceptions := rejected_exceptions \<rparr>"
  have h1: "distinct (map fid (schema_fields rulesConfig))"
    by (simp add: rulesConfig_def field_defs)
  have h2: "\<forall>(i, r) \<in> set ?errs. res_blockSubmission r = Some True \<longrightarrow> \<not> valid r"
    by (simp add: failure_def)
  have nv: "\<not> valid ?flagged" by (simp add: failure_def)
  have h2': "\<forall>(i, r) \<in> set ?errs'. res_blockSubmission r = Some True \<longrightarrow> \<not> valid r"
    by (simp add: failure_def)
  have m: "\<not> missingRequired rulesConfig waiver_state"
    by (simp add: missingRequired_def is_missing_def rulesConfig_def waiver_state_def
        complete_record_def lookup_def field_defs)
  have m': "\<not> missingRequired rulesConfig (waiver_state\<lparr> exceptions := [] \<rparr>)"
    using m by (simp add: missingRequired_def is_missing_def [abs_def])
  have a: "canSubmit rulesConfig ?errs waiver_state"
    using m by (simp add: canSubmit_def hasStrictErrors_def blocks_def rulesConfig_def
        waiver_state_def failure_def field_defs rationale_defs)
  have b: "\<not> canSubmit rulesConfig ?errs (waiver_state\<lparr> exceptions := [] \<rparr>)"
    by (simp add: canSubmit_def hasStrictErrors_def blocks_def rulesConfig_def
        waiver_state_def failure_def field_defs)
  have m2: "\<not> missingRequired rulesConfig ?st'"
    by (simp add: missingRequired_def is_missing_def rulesConfig_def rejected_state_def
        complete_record_def lookup_def field_defs)
  have c: "\<not> canSubmit rulesConfig ?errs' ?st'"
    by (simp add: canSubmit_def hasStrictErrors_def blocks_def rulesConfig_def failure_def field_defs)
  show ?thesis
    using h1 waiver_errors a b c m m' m2 nv
      canSubmit_spec [OF h1 h2, of waiver_state]
      canSubmit_spec [OF h1 h2, of "waiver_state\<lparr> exceptions := [] \<rparr>"]
      canSubmit_spec [OF h1 h2', of ?st']
    unfolding missingRequired_spec
    by blast
qed

end
